theory Spec2Isabelle
  imports Complex_Main "HOL-Library.Word"
begin

section \<open>Outcomes of a call\<close>

text \<open>
  The pricers work on C++ \<open>double\<close>s, modelled here as exact real numbers: rounding,
  overflow and underflow are not part of the model. A call either returns (\<open>Inr\<close>) or
  ends in one of the outcomes below (\<open>Inl\<close>).
  \<^item> \<open>InvalidArgument msg\<close>: a failed \<open>QL_REQUIRE\<close>, which throws with that message.
  \<^item> \<open>OutOfBounds\<close>: an array subscript outside \<open>0 .. size - 1\<close>. The C++ has no
    check there (undefined behaviour), the model stops.
  \<^item> \<open>DivisionByZero\<close>, \<open>DomainError\<close>: a division by zero, a square root of a
    negative number, a logarithm of a non-positive number. IEEE arithmetic goes on with
    an infinity or a NaN; no real number describes the result, so the model stops.
\<close>

datatype error = InvalidArgument string | OutOfBounds | DivisionByZero | DomainError

definition bindE :: "error + 'a \<Rightarrow> ('a \<Rightarrow> error + 'b) \<Rightarrow> error + 'b" where
  "bindE m f = (case m of Inl e \<Rightarrow> Inl e | Inr x \<Rightarrow> f x)"

definition raisesInvalidArgument :: "error + 'a \<Rightarrow> bool" where
  "raisesInvalidArgument r = (case r of Inl (InvalidArgument msg) \<Rightarrow> True | _ \<Rightarrow> False)"

text \<open>
  Modelled from the spec: the macro \<open>QL_REQUIRE\<close> is defined in a header that is not
  among the sources. A failed requirement is the failure the specification calls
  InvalidArgument; the model keeps the message.
\<close>

definition QL_REQUIRE :: "bool \<Rightarrow> string \<Rightarrow> error + unit" where
  "QL_REQUIRE condition description =
     (if condition then Inr () else Inl (InvalidArgument description))"

subsection \<open>Arithmetic on doubles, as reals\<close>

text \<open>
  Modelled from the spec: the macros \<open>QL_SQRT\<close>, \<open>QL_LOG\<close>, \<open>QL_EXP\<close>, \<open>QL_MAX\<close>
  and \<open>QL_FABS\<close> are defined in a header that is not among the sources. The
  specification writes them as the square root, the natural logarithm, the exponential,
  the maximum and the absolute value. \<open>fdiv\<close> is the division of two doubles.
\<close>

definition fdiv :: "real \<Rightarrow> real \<Rightarrow> error + real" where
  "fdiv a b = (if b = 0 then Inl DivisionByZero else Inr (a / b))"

definition QL_SQRT :: "real \<Rightarrow> error + real" where
  "QL_SQRT x = (if x < 0 then Inl DomainError else Inr (sqrt x))"

definition QL_LOG :: "real \<Rightarrow> error + real" where
  "QL_LOG x = (if x \<le> 0 then Inl DomainError else Inr (ln x))"

definition QL_EXP :: "real \<Rightarrow> real" where
  "QL_EXP x = exp x"

definition QL_MAX :: "real \<Rightarrow> real \<Rightarrow> real" where
  "QL_MAX a b = (if a < b then b else a)"

definition QL_FABS :: "real \<Rightarrow> real" where
  "QL_FABS x = (if x < 0 then - x else x)"

subsection \<open>Arrays\<close>

text \<open>
  Modelled from the spec: the class \<open>Array\<close> is not among the sources. The grid and the
  payoff vector are each an "ordered sequence of N values": an \<open>Array\<close> is a list of
  reals, and its subscript operator takes a C++ \<open>int\<close>. \<open>Array n junk\<close> is the array of
  \<open>n\<close> slots that the constructor allocates; \<open>junk\<close> stands for whatever the slots hold
  before they are written.
\<close>

definition Array :: "int \<Rightarrow> real list \<Rightarrow> real list" where
  "Array n junk = take (nat n) (junk @ replicate (nat n) 0)"

definition inRange :: "real list \<Rightarrow> int \<Rightarrow> bool" where
  "inRange a i = (0 \<le> i \<and> i < int (length a))"

definition getAt :: "real list \<Rightarrow> int \<Rightarrow> error + real" where
  "getAt a i = (if inRange a i then Inr (a ! nat i) else Inl OutOfBounds)"

definition setAt :: "real list \<Rightarrow> int \<Rightarrow> real \<Rightarrow> error + real list" where
  "setAt a i v = (if inRange a i then Inr (a[nat i := v]) else Inl OutOfBounds)"

section \<open>The finite-difference pricer: \<open>BSMNumericalOption\<close>\<close>

text \<open>
  Modelled from the spec: the enumeration \<open>Type\<close> is declared in a header that is not
  among the sources. It is the "variant tag {Call, Put, Straddle}"; \<open>Unrecognized n\<close> is
  any other value of the underlying integer, which the \<open>default\<close> branch of
  \<open>initializeInitialCondition\<close> is there for. \<open>BoundaryCondition\<close> is a pair of a type
  and a value, as the source builds it.
\<close>

datatype Type = Call | Put | Straddle | Unrecognized int

datatype BoundaryConditionType = NoBC | Neumann | Dirichlet

datatype BoundaryCondition = BoundaryCondition BoundaryConditionType real

text \<open>
  Modelled from the spec: the class \<open>BSMOperator\<close> is not among the sources. An operator
  is "a banded linear operator of size N plus two boundary-condition descriptors (type,
  value) attached to its first and last rows"; the model keeps the arguments it is built
  from and the two descriptors, which \<open>setLowerBC\<close> and \<open>setHigherBC\<close> store.
\<close>

record BSMOperator =
  opSize :: int
  opLogSpacing :: real
  opRiskFreeRate :: real
  opDividendYield :: real
  opVolatility :: real
  lowerBC :: BoundaryCondition
  higherBC :: BoundaryCondition

definition newBSMOperator :: "int \<Rightarrow> real \<Rightarrow> real \<Rightarrow> real \<Rightarrow> real \<Rightarrow> BSMOperator" where
  "newBSMOperator n dx r q sigma =
     \<lparr>opSize = n, opLogSpacing = dx, opRiskFreeRate = r, opDividendYield = q,
      opVolatility = sigma, lowerBC = BoundaryCondition NoBC 0,
      higherBC = BoundaryCondition NoBC 0\<rparr>"

definition setLowerBC :: "BSMOperator \<Rightarrow> BoundaryCondition \<Rightarrow> BSMOperator" where
  "setLowerBC L bc = L\<lparr>lowerBC := bc\<rparr>"

definition setHigherBC :: "BSMOperator \<Rightarrow> BoundaryCondition \<Rightarrow> BSMOperator" where
  "setHigherBC L bc = L\<lparr>higherBC := bc\<rparr>"

text \<open>
  The data members of a \<open>BSMNumericalOption\<close>. The source marks a member with a
  trailing underscore, which a name cannot end with here: the member \<^verbatim>\<open>sMin_\<close> is the
  field \<open>m_sMin\<close>, and so on.
\<close>

record BSMNumericalOption =
  m_type :: Type
  m_underlying :: real
  m_strike :: real
  m_dividendYield :: real
  m_riskFreeRate :: real
  m_residualTime :: real
  m_volatility :: real
  m_gridPoints :: int
  m_grid :: "real list"
  m_initialPrices :: "real list"
  m_sMin :: real
  m_sMax :: real
  m_gridLogSpacing :: real
  m_finiteDifferenceOperator :: BSMOperator
  m_hasBeenCalculated :: bool
  m_value :: real
  m_delta :: real
  m_gamma :: real
  m_theta :: real

text \<open>
  The constructor. \<open>safeGridPoints\<close> is declared in the header, which is not among the
  sources, and is a parameter here. The constructor of the base class \<open>BSMOption\<close> is
  not among the sources either: the model has it store its arguments, and whatever it
  checks is not modelled. The members the constructor does not assign keep the contents
  of the object's storage, \<open>mem\<close>. \<open>gridPoints_\<close> is a C++ \<open>int\<close>, modelled as an
  integer: the code only subtracts 1 or 2 from it and counts up to it.
\<close>

definition BSMNumericalOption_new ::
  "(int \<Rightarrow> real \<Rightarrow> int) \<Rightarrow> BSMNumericalOption \<Rightarrow> Type \<Rightarrow> real \<Rightarrow> real \<Rightarrow> real \<Rightarrow> real
     \<Rightarrow> real \<Rightarrow> real \<Rightarrow> int \<Rightarrow> BSMNumericalOption" where
  "BSMNumericalOption_new safeGridPoints mem type underlying strike dividendYield
       riskFreeRate residualTime volatility gridPoints =
     (let n = safeGridPoints gridPoints residualTime in
      mem\<lparr>m_type := type, m_underlying := underlying, m_strike := strike,
          m_dividendYield := dividendYield, m_riskFreeRate := riskFreeRate,
          m_residualTime := residualTime, m_volatility := volatility,
          m_gridPoints := n, m_grid := Array n (m_grid mem),
          m_initialPrices := Array n (m_initialPrices mem),
          m_hasBeenCalculated := False\<rparr>)"

text \<open>
  \<open>setGridLimits\<close>: the grid's bounds around the underlying, widened so that the strike
  is inside with the safety factor.
\<close>

definition setGridLimits :: "BSMNumericalOption \<Rightarrow> error + BSMNumericalOption" where
  "setGridLimits s =
     bindE (QL_SQRT (m_residualTime s)) (\<lambda>root.
     let volSqrtTime = m_volatility s * root in
     bindE (fdiv 0.02 volSqrtTime) (\<lambda>q.
     let prefactor = 1.0 + q;
         minMaxFactor = QL_EXP (4.0 * prefactor * volSqrtTime) in
     bindE (fdiv (m_underlying s) minMaxFactor) (\<lambda>lo.
     let s1 = s\<lparr>m_sMin := lo, m_sMax := m_underlying s * minMaxFactor\<rparr>;
         safetyZoneFactor = 1.1 in
     bindE (if m_sMin s1 > m_strike s1 / safetyZoneFactor
            then (let s1' = s1\<lparr>m_sMin := m_strike s1 / safetyZoneFactor\<rparr> in
                  bindE (fdiv (m_sMin s1') (m_underlying s1')) (\<lambda>r.
                  bindE (fdiv (m_underlying s1') r) (\<lambda>hi.
                  Inr (s1'\<lparr>m_sMax := hi\<rparr>))))
            else Inr s1) (\<lambda>s2.
     if m_sMax s2 < m_strike s2 * safetyZoneFactor
     then (let s2' = s2\<lparr>m_sMax := m_strike s2 * safetyZoneFactor\<rparr> in
           bindE (fdiv (m_sMax s2') (m_underlying s2')) (\<lambda>r.
           bindE (fdiv (m_underlying s2') r) (\<lambda>lo'.
           Inr (s2'\<lparr>m_sMin := lo'\<rparr>))))
     else Inr s2))))"

text \<open>
  \<open>initializeGrid\<close>: the loop \<^verbatim>\<open>for (j=1; j<gridPoints_; j++) grid_[j] = grid_[j-1]*edx\<close>
  is \<open>initializeGrid_loop\<close>, on the array and the counter \<open>j\<close>.
\<close>

function initializeGrid_loop :: "real \<Rightarrow> int \<Rightarrow> int \<Rightarrow> real list \<Rightarrow> error + real list" where
  "initializeGrid_loop edx n j g =
     (if j < n
      then (case getAt g (j - 1) of
              Inl e \<Rightarrow> Inl e
            | Inr prev \<Rightarrow>
                (case setAt g j (prev * edx) of
                   Inl e \<Rightarrow> Inl e
                 | Inr g' \<Rightarrow> initializeGrid_loop edx n (j + 1) g'))
      else Inr g)"
  by pat_completeness auto
termination
  by (relation "measure (\<lambda>(edx, n, j, g). nat (n - j))") auto

definition initializeGrid :: "BSMNumericalOption \<Rightarrow> error + BSMNumericalOption" where
  "initializeGrid s =
     bindE (QL_LOG (m_sMax s)) (\<lambda>logMax.
     bindE (QL_LOG (m_sMin s)) (\<lambda>logMin.
     bindE (fdiv (logMax - logMin) (of_int (m_gridPoints s - 1))) (\<lambda>spacing.
     let s1 = s\<lparr>m_gridLogSpacing := spacing\<rparr>;
         edx = QL_EXP (m_gridLogSpacing s1) in
     bindE (setAt (m_grid s1) 0 (m_sMin s1)) (\<lambda>g0.
     bindE (initializeGrid_loop edx (m_gridPoints s1) 1 g0) (\<lambda>g.
     Inr (s1\<lparr>m_grid := g\<rparr>))))))"

text \<open>
  \<open>initializeInitialCondition\<close>: each branch of the \<open>switch\<close> runs the loop
  \<^verbatim>\<open>for (j = 0; j < gridPoints_; j++) initialPrices_[j] = payoff(grid_[j])\<close> with its own
  payoff expression; \<open>payoff_loop\<close> is that loop, the expression a parameter.
\<close>

function payoff_loop ::
  "(real \<Rightarrow> real) \<Rightarrow> int \<Rightarrow> int \<Rightarrow> real list \<Rightarrow> real list \<Rightarrow> error + real list" where
  "payoff_loop payoff n j grid prices =
     (if j < n
      then (case getAt grid j of
              Inl e \<Rightarrow> Inl e
            | Inr x \<Rightarrow>
                (case setAt prices j (payoff x) of
                   Inl e \<Rightarrow> Inl e
                 | Inr prices' \<Rightarrow> payoff_loop payoff n (j + 1) grid prices'))
      else Inr prices)"
  by pat_completeness auto
termination
  by (relation "measure (\<lambda>(payoff, n, j, grid, prices). nat (n - j))") auto

definition initializeInitialCondition :: "BSMNumericalOption \<Rightarrow> error + BSMNumericalOption" where
  "initializeInitialCondition s =
     (case m_type s of
        Call \<Rightarrow>
          bindE (payoff_loop (\<lambda>x. QL_MAX (x - m_strike s) 0.0) (m_gridPoints s) 0
                   (m_grid s) (m_initialPrices s))
            (\<lambda>p. Inr (s\<lparr>m_initialPrices := p\<rparr>))
      | Put \<Rightarrow>
          bindE (payoff_loop (\<lambda>x. QL_MAX (m_strike s - x) 0.0) (m_gridPoints s) 0
                   (m_grid s) (m_initialPrices s))
            (\<lambda>p. Inr (s\<lparr>m_initialPrices := p\<rparr>))
      | Straddle \<Rightarrow>
          bindE (payoff_loop (\<lambda>x. QL_FABS (m_strike s - x)) (m_gridPoints s) 0
                   (m_grid s) (m_initialPrices s))
            (\<lambda>p. Inr (s\<lparr>m_initialPrices := p\<rparr>))
      | Unrecognized tag \<Rightarrow>
          bindE (QL_REQUIRE ((1::int) = 0) ''BSMNumericalOption: invalid option type'')
            (\<lambda>u. Inr s))"

definition initializeOperator :: "BSMNumericalOption \<Rightarrow> error + BSMNumericalOption" where
  "initializeOperator s =
     (let s1 = s\<lparr>m_finiteDifferenceOperator :=
                   newBSMOperator (m_gridPoints s) (m_gridLogSpacing s) (m_riskFreeRate s)
                     (m_dividendYield s) (m_volatility s)\<rparr> in
      bindE (getAt (m_initialPrices s1) 1) (\<lambda>p1.
      bindE (getAt (m_initialPrices s1) 0) (\<lambda>p0.
      let s2 = s1\<lparr>m_finiteDifferenceOperator :=
                    setLowerBC (m_finiteDifferenceOperator s1)
                      (BoundaryCondition Neumann (p1 - p0))\<rparr> in
      bindE (getAt (m_initialPrices s2) (m_gridPoints s2 - 1)) (\<lambda>pLast.
      bindE (getAt (m_initialPrices s2) (m_gridPoints s2 - 2)) (\<lambda>pBeforeLast.
      Inr (s2\<lparr>m_finiteDifferenceOperator :=
                 setHigherBC (m_finiteDifferenceOperator s2)
                   (BoundaryCondition Neumann (pLast - pBeforeLast))\<rparr>))))))"

text \<open>
  The constructor allocates both arrays with \<open>gridPoints_\<close> slots; \<open>sized s\<close> says that
  they still have that size.
\<close>

definition sized :: "BSMNumericalOption \<Rightarrow> bool" where
  "sized s = (int (length (m_grid s)) = m_gridPoints s \<and>
              int (length (m_initialPrices s)) = m_gridPoints s)"

subsection \<open>The cached results\<close>

text \<open>
  A pricing session is the option object and a counter of the runs of the pipeline (the
  counter is instrumentation, not a member of the class).
\<close>

record session =
  obj :: BSMNumericalOption
  pipelineRuns :: nat

type_synonym stepper =
  "real list \<Rightarrow> real list \<Rightarrow> BSMOperator \<Rightarrow> real \<Rightarrow> error + (real \<times> real \<times> real \<times> real)"

text \<open>
  Modelled from the spec: \<open>calculate\<close> is pure virtual in \<open>BSMNumericalOption\<close> and its
  implementations are not among the sources. It is the "single internal calculate routine
  that runs the full grid-build, payoff-init, operator-assembly, external-PDE-solve
  pipeline and stores all four Greeks atomically (all-or-nothing: a failure during
  calculation leaves the cache Uncomputed and propagates the error; no partial results are
  cached)". The external stepper "accepts (Grid, PayoffVector, FiniteDifferenceOperator,
  risk-free rate) and returns value/delta/gamma/theta"; it is the parameter \<open>solve\<close>.
\<close>

definition calculate :: "stepper \<Rightarrow> session \<Rightarrow> (error + unit) \<times> session" where
  "calculate solve t =
     (let t1 = t\<lparr>pipelineRuns := Suc (pipelineRuns t)\<rparr> in
      case bindE (setGridLimits (obj t)) (\<lambda>a.
           bindE (initializeGrid a) (\<lambda>b.
           bindE (initializeInitialCondition b) initializeOperator)) of
        Inl e \<Rightarrow> (Inl e, t1)
      | Inr s \<Rightarrow>
          (case solve (m_grid s) (m_initialPrices s) (m_finiteDifferenceOperator s)
                  (m_riskFreeRate s) of
             Inl e \<Rightarrow> (Inl e, t1)
           | Inr (v, d, g, th) \<Rightarrow>
               (Inr (), t1\<lparr>obj := s\<lparr>m_value := v, m_delta := d, m_gamma := g,
                                     m_theta := th, m_hasBeenCalculated := True\<rparr>\<rparr>)))"

text \<open>
  The four accessors of the source, \<open>value()\<close>, \<open>delta()\<close>, \<open>gamma()\<close> and \<open>theta()\<close>:
  \<^verbatim>\<open>if (!hasBeenCalculated_) calculate(); return value_;\<close>
\<close>

definition BSMNumericalOption_value :: "stepper \<Rightarrow> session \<Rightarrow> (error + real) \<times> session" where
  "BSMNumericalOption_value solve t =
     (if \<not> m_hasBeenCalculated (obj t)
      then (case calculate solve t of
              (Inl e, t') \<Rightarrow> (Inl e, t')
            | (Inr u, t') \<Rightarrow> (Inr (m_value (obj t')), t'))
      else (Inr (m_value (obj t)), t))"

definition BSMNumericalOption_delta :: "stepper \<Rightarrow> session \<Rightarrow> (error + real) \<times> session" where
  "BSMNumericalOption_delta solve t =
     (if \<not> m_hasBeenCalculated (obj t)
      then (case calculate solve t of
              (Inl e, t') \<Rightarrow> (Inl e, t')
            | (Inr u, t') \<Rightarrow> (Inr (m_delta (obj t')), t'))
      else (Inr (m_delta (obj t)), t))"

definition BSMNumericalOption_gamma :: "stepper \<Rightarrow> session \<Rightarrow> (error + real) \<times> session" where
  "BSMNumericalOption_gamma solve t =
     (if \<not> m_hasBeenCalculated (obj t)
      then (case calculate solve t of
              (Inl e, t') \<Rightarrow> (Inl e, t')
            | (Inr u, t') \<Rightarrow> (Inr (m_gamma (obj t')), t'))
      else (Inr (m_gamma (obj t)), t))"

definition BSMNumericalOption_theta :: "stepper \<Rightarrow> session \<Rightarrow> (error + real) \<times> session" where
  "BSMNumericalOption_theta solve t =
     (if \<not> m_hasBeenCalculated (obj t)
      then (case calculate solve t of
              (Inl e, t') \<Rightarrow> (Inl e, t')
            | (Inr u, t') \<Rightarrow> (Inr (m_theta (obj t')), t'))
      else (Inr (m_theta (obj t)), t))"

text \<open>A client's calls: which accessor, and a sequence of them on one session.\<close>

datatype accessor = Value | Delta | Gamma | Theta

fun call :: "stepper \<Rightarrow> accessor \<Rightarrow> session \<Rightarrow> (error + real) \<times> session" where
  "call solve Value t = BSMNumericalOption_value solve t"
| "call solve Delta t = BSMNumericalOption_delta solve t"
| "call solve Gamma t = BSMNumericalOption_gamma solve t"
| "call solve Theta t = BSMNumericalOption_theta solve t"

fun cached :: "accessor \<Rightarrow> BSMNumericalOption \<Rightarrow> real" where
  "cached Value s = m_value s"
| "cached Delta s = m_delta s"
| "cached Gamma s = m_gamma s"
| "cached Theta s = m_theta s"

fun calls :: "stepper \<Rightarrow> accessor list \<Rightarrow> session \<Rightarrow> (error + real) list \<times> session" where
  "calls solve [] t = ([], t)"
| "calls solve (a # as) t =
     (case call solve a t of
        (r, t') \<Rightarrow> (case calls solve as t' of (rs, t'') \<Rightarrow> (r # rs, t'')))"

section \<open>The Monte Carlo engine: \<open>MCForwardVanillaEngine\<close>\<close>

text \<open>
  \<open>Size\<close> is \<open>std::size_t\<close> and \<open>BigNatural\<close> an unsigned long, both taken as 64-bit
  words. \<open>Null<Size>()\<close>, the value that stands for "not supplied", is defined in a
  header that is not among the sources: it is the parameter \<open>null\<close> of the constructor.
\<close>

type_synonym Size = "64 word"
type_synonym BigNatural = "64 word"

record 'p MCForwardVanillaEngine =
  m_antitheticVariate :: bool
  m_controlVariate :: bool
  m_process :: 'p
  m_timeSteps :: Size
  m_timeStepsPerYear :: Size
  m_requiredSamples :: Size
  m_maxSamples :: Size
  m_requiredTolerance :: real
  m_brownianBridge :: bool
  m_seed :: BigNatural

text \<open>
  The constructor: the member initialisers, then the four \<open>QL_REQUIRE\<close>s in the order of
  the source. The last two messages print the offending value, which is 0 when they are
  raised.
\<close>

definition MCForwardVanillaEngine_new ::
  "Size \<Rightarrow> 'p \<Rightarrow> Size \<Rightarrow> Size \<Rightarrow> bool \<Rightarrow> bool \<Rightarrow> Size \<Rightarrow> real \<Rightarrow> Size \<Rightarrow> BigNatural
     \<Rightarrow> error + 'p MCForwardVanillaEngine" where
  "MCForwardVanillaEngine_new null process timeSteps timeStepsPerYear brownianBridge
       antitheticVariate requiredSamples requiredTolerance maxSamples seed =
     (let this = \<lparr>m_antitheticVariate = antitheticVariate, m_controlVariate = False,
                  m_process = process, m_timeSteps = timeSteps,
                  m_timeStepsPerYear = timeStepsPerYear,
                  m_requiredSamples = requiredSamples, m_maxSamples = maxSamples,
                  m_requiredTolerance = requiredTolerance,
                  m_brownianBridge = brownianBridge, m_seed = seed\<rparr> in
      bindE (QL_REQUIRE (timeSteps \<noteq> null \<or> timeStepsPerYear \<noteq> null)
               ''no time steps provided'') (\<lambda>u.
      bindE (QL_REQUIRE (timeSteps = null \<or> timeStepsPerYear = null)
               ''both time steps and time steps per year were provided'') (\<lambda>u.
      bindE (QL_REQUIRE (timeSteps \<noteq> 0)
               ''timeSteps must be positive, 0 not allowed'') (\<lambda>u.
      bindE (QL_REQUIRE (timeStepsPerYear \<noteq> 0)
               ''timeStepsPerYear must be positive, 0 not allowed'') (\<lambda>u.
      Inr this)))))"

text \<open>
  The step configuration of a constructor call: \<open>supplied null n\<close> says that the
  argument \<open>n\<close> is not the null value.
\<close>

definition supplied :: "Size \<Rightarrow> Size \<Rightarrow> bool" where
  "supplied null n = (n \<noteq> null)"

section \<open>Examples\<close>

text \<open>
  The scenario of the specification: spot 100, strike 100, dividend yield 0.02, risk-free
  rate 0.05, one year, volatility 0.2, a call; five grid points keep the example small.
  \<open>blankMemory\<close> is storage holding zeros and empty arrays.
\<close>

definition blankMemory :: BSMNumericalOption where
  "blankMemory =
     \<lparr>m_type = Call, m_underlying = 0, m_strike = 0, m_dividendYield = 0,
      m_riskFreeRate = 0, m_residualTime = 0, m_volatility = 0, m_gridPoints = 0,
      m_grid = [], m_initialPrices = [], m_sMin = 0, m_sMax = 0, m_gridLogSpacing = 0,
      m_finiteDifferenceOperator = newBSMOperator 0 0 0 0 0,
      m_hasBeenCalculated = False, m_value = 0, m_delta = 0, m_gamma = 0, m_theta = 0\<rparr>"

definition exampleOption :: BSMNumericalOption where
  "exampleOption =
     BSMNumericalOption_new (\<lambda>gridPoints residualTime. gridPoints) blankMemory
       Call 100 100 0.02 0.05 1 0.2 5"

text \<open>The same option with a negative volatility, which no market quotes.\<close>

definition negativeVolatilityOption :: BSMNumericalOption where
  "negativeVolatilityOption = exampleOption\<lparr>m_volatility := - 0.2\<rparr>"

text \<open>The example option once \<open>setGridLimits\<close> has left bounds: here 50 and 200.\<close>

definition gridExample :: BSMNumericalOption where
  "gridExample = exampleOption\<lparr>m_sMin := 50, m_sMax := 200\<rparr>"

text \<open>The example option with a grid, and the same with each other variant tag.\<close>

definition payoffExample :: BSMNumericalOption where
  "payoffExample = exampleOption\<lparr>m_grid := [50, 75, 100, 150, 200]\<rparr>"

definition putExample :: BSMNumericalOption where
  "putExample = payoffExample\<lparr>m_type := Put\<rparr>"

definition straddleExample :: BSMNumericalOption where
  "straddleExample = payoffExample\<lparr>m_type := Straddle\<rparr>"

definition unrecognizedExample :: BSMNumericalOption where
  "unrecognizedExample = payoffExample\<lparr>m_type := Unrecognized 7\<rparr>"

text \<open>The call example once its payoff is in \<open>initialPrices_\<close>.\<close>

definition operatorExample :: BSMNumericalOption where
  "operatorExample = payoffExample\<lparr>m_initialPrices := [0, 0, 0, 50, 100]\<rparr>"

text \<open>A session on the example option, and a stepper that answers 1, 2, 3 and 4.\<close>

definition exampleSession :: session where
  "exampleSession = \<lparr>obj = exampleOption, pipelineRuns = 0\<rparr>"

definition exampleStepper :: stepper where
  "exampleStepper grid prices L r = Inr (1, 2, 3, 4)"

text \<open>
  The example option with a strike of 10, where the lower re-centering branch of
  \<open>setGridLimits\<close> fires, and with a strike of 1000, where the upper one does.
\<close>

definition lowStrikeOption :: BSMNumericalOption where
  "lowStrikeOption = exampleOption\<lparr>m_strike := 10\<rparr>"

definition highStrikeOption :: BSMNumericalOption where
  "highStrikeOption = exampleOption\<lparr>m_strike := 1000\<rparr>"

section \<open>Basic facts\<close>

lemma bindE_Inr [simp]: "bindE (Inr x) f = f x"
  by (simp add: bindE_def)

lemma bindE_Inl [simp]: "bindE (Inl e) f = Inl e"
  by (simp add: bindE_def)

subsection \<open>Real arithmetic of the grid limits\<close>

lemma ratio_recentre:
  fixes S b :: real
  assumes S: "0 < S" and b: "0 < b"
  shows "b * (S / (b / S)) = S * S" "S / (b / S) * b = S * S"
    "b < S \<Longrightarrow> S < S / (b / S)" "S < b \<Longrightarrow> S / (b / S) < S"
proof -
  have e: "S / (b / S) = S * S / b" by simp
  show "b * (S / (b / S)) = S * S" "S / (b / S) * b = S * S"
    using b by (simp_all add: e)
  { assume "b < S"
    then have "S * b < S * S" using S by (rule mult_strict_left_mono)
    then show "S < S / (b / S)" unfolding e using b by (simp add: pos_less_divide_eq) }
  { assume "S < b"
    then have "S * S < S * b" using S by (rule mult_strict_left_mono)
    then show "S / (b / S) < S" unfolding e using b by (simp add: pos_divide_less_eq) }
qed

lemma factor_bounds:
  fixes S f :: real
  assumes S: "0 < S" and f: "1 < f"
  shows "S / f < S" "S < S * f" "S / f * (S * f) = S * S"
proof -
  have f0: "0 < f" using f by linarith
  have "S * 1 < S * f" using f S by (rule mult_strict_left_mono)
  then show a: "S < S * f" by simp
  then show "S / f < S" using f0 by (simp add: pos_divide_less_eq)
  show "S / f * (S * f) = S * S" using f0 by simp
qed

lemma factor_gt_one:
  fixes v :: real
  assumes "0 < v"
  shows "1 < exp (4 * (1 + 0.02 / v) * v)"
proof -
  have "4 * (1 + 0.02 / v) * v = 4 * v + 0.08" using assms by (simp add: field_simps)
  then show ?thesis using assms by simp
qed

lemma limits_arith:
  fixes S K f :: real
  assumes S: "0 < S" and K: "0 < K" and f: "1 < f"
  defines "lo1 \<equiv> (if S / f > K / 1.1 then K / 1.1 else S / f)"
  defines "hi1 \<equiv> (if S / f > K / 1.1 then S / ((K / 1.1) / S) else S * f)"
  defines "lo2 \<equiv> (if hi1 < K * 1.1 then S / ((K * 1.1) / S) else lo1)"
  defines "hi2 \<equiv> (if hi1 < K * 1.1 then K * 1.1 else hi1)"
  shows "lo2 < S \<and> S < hi2 \<and> lo2 \<le> K / 1.1 \<and> K * 1.1 \<le> hi2 \<and> lo2 * hi2 = S * S"
proof -
  define a where "a = K / 1.1"
  define b where "b = K * 1.1"
  have a: "0 < a" and b: "0 < b" using K by (simp_all add: a_def b_def)
  have ab: "a * b = K * K" by (simp add: a_def b_def)
  have f0: "0 < f" using f by linarith
  note fb = factor_bounds [OF S f]
  have lo1: "lo1 = (if S / f > a then a else S / f)"
    and hi1: "hi1 = (if S / f > a then S / (a / S) else S * f)"
    and lo2: "lo2 = (if hi1 < b then S / (b / S) else lo1)"
    and hi2: "hi2 = (if hi1 < b then b else hi1)"
    by (simp_all only: lo1_def hi1_def lo2_def hi2_def a_def b_def)
  have first: "lo1 < S \<and> S < hi1 \<and> lo1 \<le> a \<and> lo1 * hi1 = S * S \<and> 0 < lo1"
  proof (cases "S / f > a")
    case True
    then have "a < S" using fb(1) by linarith
    then have "S < S / (a / S)" by (rule ratio_recentre(3) [OF S a])
    moreover have "a * (S / (a / S)) = S * S" by (rule ratio_recentre(1) [OF S a])
    ultimately show ?thesis using True \<open>a < S\<close> a unfolding lo1 hi1 by (simp only: if_True) simp
  next
    case False
    have "0 < S / f" using S f0 by (rule divide_pos_pos)
    then show ?thesis using False fb unfolding lo1 hi1 by (simp only: if_False) simp
  qed
  show ?thesis
  proof (cases "hi1 < b")
    case False
    then show ?thesis using first unfolding lo2 hi2 a_def [symmetric] b_def [symmetric]
      by (simp only: if_False) simp
  next
    case True
    then have Sb: "S < b" using first by linarith
    have "S * S = lo1 * hi1" using first by simp
    also have "\<dots> < lo1 * b" using True first by (intro mult_strict_left_mono) simp_all
    also have "\<dots> \<le> a * b" using first b by (intro mult_right_mono) simp_all
    finally have sq: "S * S < K * K" using ab by simp
    have "S / (b / S) = S * S / b" by simp
    also have "\<dots> \<le> K * K / b" using sq b by (intro divide_right_mono) simp_all
    also have "\<dots> = a" using K by (simp add: a_def b_def)
    finally have "S / (b / S) \<le> a" .
    moreover have "S / (b / S) < S" using Sb by (rule ratio_recentre(4) [OF S b])
    moreover have "S / (b / S) * b = S * S" by (rule ratio_recentre(2) [OF S b])
    ultimately show ?thesis using True Sb unfolding lo2 hi2 a_def [symmetric] b_def [symmetric]
      by (simp only: if_True) simp
  qed
qed

subsection \<open>\<open>setGridLimits\<close>\<close>

lemma setGridLimits_eq:
  assumes T: "0 \<le> m_residualTime s" and v: "m_volatility s * sqrt (m_residualTime s) \<noteq> 0"
    and S: "m_underlying s \<noteq> 0" and K: "m_strike s \<noteq> 0"
  defines "f \<equiv> exp (4 * (1 + 0.02 / (m_volatility s * sqrt (m_residualTime s))) * (m_volatility s * sqrt (m_residualTime s)))"
  defines "lo1 \<equiv> (if m_underlying s / f > m_strike s / 1.1 then m_strike s / 1.1 else m_underlying s / f)"
  defines "hi1 \<equiv> (if m_underlying s / f > m_strike s / 1.1 then m_underlying s / ((m_strike s / 1.1) / m_underlying s) else m_underlying s * f)"
  shows "setGridLimits s = Inr (s\<lparr>m_sMin := (if hi1 < m_strike s * 1.1 then m_underlying s / ((m_strike s * 1.1) / m_underlying s) else lo1),
            m_sMax := (if hi1 < m_strike s * 1.1 then m_strike s * 1.1 else hi1)\<rparr>)"
  using assms unfolding setGridLimits_def
  by (simp add: fdiv_def QL_SQRT_def QL_EXP_def Let_def)

lemma setGridLimits_positive:
  assumes S: "0 < m_underlying s" and K: "0 < m_strike s"
    and v: "0 < m_volatility s" and T: "0 < m_residualTime s"
  shows "\<exists>lo hi. setGridLimits s = Inr (s\<lparr>m_sMin := lo, m_sMax := hi\<rparr>) \<and>
           lo < m_underlying s \<and> m_underlying s < hi \<and>
           lo \<le> m_strike s / 1.1 \<and> m_strike s * 1.1 \<le> hi \<and>
           lo * hi = m_underlying s * m_underlying s"
proof -
  define w where "w = m_volatility s * sqrt (m_residualTime s)"
  define f where "f = exp (4 * (1 + 0.02 / w) * w)"
  define lo1 where
    "lo1 = (if m_underlying s / f > m_strike s / 1.1 then m_strike s / 1.1
            else m_underlying s / f)"
  define hi1 where
    "hi1 = (if m_underlying s / f > m_strike s / 1.1
            then m_underlying s / ((m_strike s / 1.1) / m_underlying s)
            else m_underlying s * f)"
  define lo where
    "lo = (if hi1 < m_strike s * 1.1 then m_underlying s / ((m_strike s * 1.1) / m_underlying s)
           else lo1)"
  define hi where "hi = (if hi1 < m_strike s * 1.1 then m_strike s * 1.1 else hi1)"
  have w: "0 < w" using v T by (simp add: w_def)
  have f: "1 < f" unfolding f_def using w by (rule factor_gt_one)
  have "setGridLimits s = Inr (s\<lparr>m_sMin := lo, m_sMax := hi\<rparr>)"
    unfolding lo_def hi_def hi1_def lo1_def f_def w_def
    by (rule setGridLimits_eq) (use S K T v in simp_all)
  moreover have "lo < m_underlying s \<and> m_underlying s < hi \<and>
      lo \<le> m_strike s / 1.1 \<and> m_strike s * 1.1 \<le> hi \<and>
      lo * hi = m_underlying s * m_underlying s"
    unfolding lo_def hi_def hi1_def lo1_def by (rule limits_arith [OF S K f])
  ultimately show ?thesis by blast
qed

lemma BSMNumericalOption_new_fresh:
  "\<not> m_hasBeenCalculated
       (BSMNumericalOption_new safeGridPoints mem type underlying strike dividendYield
          riskFreeRate residualTime volatility gridPoints)"
  "0 \<le> safeGridPoints gridPoints residualTime \<Longrightarrow>
     sized (BSMNumericalOption_new safeGridPoints mem type underlying strike dividendYield
          riskFreeRate residualTime volatility gridPoints)"
  by (simp_all add: BSMNumericalOption_new_def sized_def Array_def Let_def min_def)

lemma exampleOption_fields [simp]:
  "m_type exampleOption = Call" "m_underlying exampleOption = 100"
  "m_strike exampleOption = 100" "m_residualTime exampleOption = 1"
  "m_volatility exampleOption = 0.2" "m_gridPoints exampleOption = 5"
  "m_hasBeenCalculated exampleOption = False"
  "length (m_grid exampleOption) = 5" "length (m_initialPrices exampleOption) = 5"
  by (simp_all add: exampleOption_def BSMNumericalOption_new_def blankMemory_def Array_def)

text \<open>
  Claim C1. For a positive spot, strike, volatility and residual time, \<open>setGridLimits\<close>
  returns, and its bounds satisfy \<open>sMin < S < sMax\<close>, whichever of the two re-centering
  branches has fired.
\<close>

theorem setGridLimits_brackets_spot:
  assumes "0 < m_underlying s" and "0 < m_strike s"
    and "0 < m_volatility s" and "0 < m_residualTime s"
  shows "\<exists>s'. setGridLimits s = Inr s' \<and>
           m_sMin s' < m_underlying s \<and> m_underlying s < m_sMax s'"
proof -
  obtain lo hi where "setGridLimits s = Inr (s\<lparr>m_sMin := lo, m_sMax := hi\<rparr>)"
    and "lo < m_underlying s" and "m_underlying s < hi"
    using setGridLimits_positive [OF assms] by blast
  then show ?thesis by simp
qed

theorem setGridLimits_brackets_spot_witness:
  "0 < m_underlying exampleOption \<and> 0 < m_strike exampleOption \<and>
   0 < m_volatility exampleOption \<and> 0 < m_residualTime exampleOption \<and>
   (\<exists>s'. setGridLimits exampleOption = Inr s' \<and> m_sMin s' < 100 \<and> 100 < m_sMax s')"
  using setGridLimits_brackets_spot [of exampleOption] by simp

text \<open>
  Claim C2. After \<open>setGridLimits\<close> the strike is inside the bounds by the safety factor
  on both sides: \<open>sMin \<le> strike / 1.1\<close> and \<open>sMax \<ge> strike * 1.1\<close>.
\<close>

theorem setGridLimits_strike_margin:
  assumes "0 < m_underlying s" and "0 < m_strike s"
    and "0 < m_volatility s" and "0 < m_residualTime s"
  shows "\<exists>s'. setGridLimits s = Inr s' \<and>
           m_sMin s' \<le> m_strike s / 1.1 \<and> m_sMax s' \<ge> m_strike s * 1.1"
proof -
  obtain lo hi where "setGridLimits s = Inr (s\<lparr>m_sMin := lo, m_sMax := hi\<rparr>)"
    and "lo \<le> m_strike s / 1.1" and "m_strike s * 1.1 \<le> hi"
    using setGridLimits_positive [OF assms] by blast
  then show ?thesis by simp
qed

theorem setGridLimits_strike_margin_witness:
  "0 < m_underlying exampleOption \<and> 0 < m_strike exampleOption \<and>
   0 < m_volatility exampleOption \<and> 0 < m_residualTime exampleOption \<and>
   (\<exists>s'. setGridLimits exampleOption = Inr s' \<and>
      m_sMin s' \<le> 100 / 1.1 \<and> m_sMax s' \<ge> 100 * 1.1)"
  using setGridLimits_strike_margin [of exampleOption] by simp

text \<open>
  Claim C3. The bounds that \<open>setGridLimits\<close> returns satisfy \<open>sMin * sMax = S * S\<close>: the
  spot is their geometric centre. This holds on every path through the function, so in
  particular whenever one of the re-centering branches has fired.
\<close>

theorem setGridLimits_centred:
  assumes "0 < m_underlying s" and "0 < m_strike s"
    and "0 < m_volatility s" and "0 < m_residualTime s"
  shows "\<exists>s'. setGridLimits s = Inr s' \<and>
           m_sMin s' * m_sMax s' = m_underlying s * m_underlying s"
proof -
  obtain lo hi where "setGridLimits s = Inr (s\<lparr>m_sMin := lo, m_sMax := hi\<rparr>)"
    and "lo * hi = m_underlying s * m_underlying s"
    using setGridLimits_positive [OF assms] by blast
  then show ?thesis by simp
qed

text \<open>
  Both re-centering branches at work. With spot 100, volatility 0.2 and one year the
  factor is \<open>exp 0.88\<close>. A strike of 10 moves the lower bound to \<open>10 / 1.1\<close> and the
  upper bound to 1100; a strike of 1000 moves the upper bound to \<open>1000 * 1.1\<close> and the
  lower bound to \<open>100 / 11\<close>.
\<close>

lemma example_factor_bounds:
  "1 < exp (22 / 25 :: real)" "exp (22 / 25 :: real) < 11"
proof -
  show "1 < exp (22 / 25 :: real)" by simp
  have "exp (22 / 25 :: real) \<le> exp 1" by simp
  also have "\<dots> \<le> 3" by (rule exp_le)
  finally show "exp (22 / 25 :: real) < 11" by simp
qed

lemma setGridLimits_lowStrikeOption:
  "setGridLimits lowStrikeOption = Inr (lowStrikeOption\<lparr>m_sMin := 100 / 11, m_sMax := 1100\<rparr>)"
proof -
  let ?f = "exp (22 / 25 :: real)"
  have p: "0 < ?f" by simp
  have "100 / 11 < 100 / ?f"
    using example_factor_bounds(2) p by (intro divide_strict_left_mono) simp_all
  then have c: "(100 :: real) < 1100 / ?f" by simp
  show ?thesis
    using c
    by (simp add: setGridLimits_def lowStrikeOption_def fdiv_def QL_SQRT_def QL_EXP_def Let_def)
qed

lemma setGridLimits_highStrikeOption:
  "setGridLimits highStrikeOption = Inr (highStrikeOption\<lparr>m_sMax := 1100, m_sMin := 100 / 11\<rparr>)"
proof -
  let ?f = "exp (22 / 25 :: real)"
  have p: "0 < ?f" by simp
  have "100 / ?f < 100 / 1"
    using example_factor_bounds(1) by (intro divide_strict_left_mono) simp_all
  then have c1: "\<not> (10000 :: real) < 1100 / ?f" by simp
  have c2: "?f < 11" by (rule example_factor_bounds(2))
  show ?thesis
    using c1 c2
    by (simp add: setGridLimits_def highStrikeOption_def fdiv_def QL_SQRT_def QL_EXP_def Let_def)
qed

theorem setGridLimits_centred_witness:
  "(0 < m_underlying lowStrikeOption \<and> 0 < m_strike lowStrikeOption \<and>
    0 < m_volatility lowStrikeOption \<and> 0 < m_residualTime lowStrikeOption) \<and>
   (\<exists>s'. setGridLimits lowStrikeOption = Inr s' \<and>
      m_sMin s' = m_strike lowStrikeOption / 1.1 \<and> m_sMax s' = 1100 \<and>
      m_sMin s' * m_sMax s' = 100 * 100) \<and>
   (0 < m_underlying highStrikeOption \<and> 0 < m_strike highStrikeOption \<and>
    0 < m_volatility highStrikeOption \<and> 0 < m_residualTime highStrikeOption) \<and>
   (\<exists>s'. setGridLimits highStrikeOption = Inr s' \<and>
      m_sMax s' = m_strike highStrikeOption * 1.1 \<and> m_sMin s' = 100 / 11 \<and>
      m_sMin s' * m_sMax s' = 100 * 100)"
proof -
  have l: "0 < m_underlying lowStrikeOption" "0 < m_strike lowStrikeOption"
    "0 < m_volatility lowStrikeOption" "0 < m_residualTime lowStrikeOption"
    and h: "0 < m_underlying highStrikeOption" "0 < m_strike highStrikeOption"
    "0 < m_volatility highStrikeOption" "0 < m_residualTime highStrikeOption"
    by (simp_all add: lowStrikeOption_def highStrikeOption_def)
  obtain a where a: "setGridLimits lowStrikeOption = Inr a"
    and pa: "m_sMin a * m_sMax a = m_underlying lowStrikeOption * m_underlying lowStrikeOption"
    using setGridLimits_centred [OF l] by blast
  obtain b where b: "setGridLimits highStrikeOption = Inr b"
    and pb: "m_sMin b * m_sMax b = m_underlying highStrikeOption * m_underlying highStrikeOption"
    using setGridLimits_centred [OF h] by blast
  have a': "a = lowStrikeOption\<lparr>m_sMin := 100 / 11, m_sMax := 1100\<rparr>"
    using a setGridLimits_lowStrikeOption by simp
  have b': "b = highStrikeOption\<lparr>m_sMax := 1100, m_sMin := 100 / 11\<rparr>"
    using b setGridLimits_highStrikeOption by simp
  have "m_sMin a = m_strike lowStrikeOption / 1.1 \<and> m_sMax a = 1100 \<and>
      m_sMin a * m_sMax a = 100 * 100"
    using pa by (simp add: a' lowStrikeOption_def)
  moreover have "m_sMax b = m_strike highStrikeOption * 1.1 \<and> m_sMin b = 100 / 11 \<and>
      m_sMin b * m_sMax b = 100 * 100"
    using pb by (simp add: b' highStrikeOption_def)
  ultimately show ?thesis using l h a b by blast
qed

text \<open>
  Claim C9, as amended. \<open>setGridLimits\<close> validates nothing: on no input does it raise
  InvalidArgument. A non-positive volatility or residual time either gives bounds or
  takes the arithmetic out of the reals; rejecting such inputs is left to the caller.
\<close>

theorem setGridLimits_validates_nothing:
  "\<not> raisesInvalidArgument (setGridLimits s)"
  by (simp add: setGridLimits_def raisesInvalidArgument_def bindE_def fdiv_def QL_SQRT_def
      Let_def split: sum.splits error.splits)

text \<open>
  The claim as stated fails at volatility \<open>- 0.2\<close> (spot and strike 100, one year):
  \<open>setGridLimits\<close> returns the bounds \<open>1000 / 11\<close> and \<open>110\<close>.
\<close>

theorem setGridLimits_negative_volatility_counterexample:
  "m_volatility negativeVolatilityOption \<le> 0 \<and>
   setGridLimits negativeVolatilityOption =
     Inr (negativeVolatilityOption\<lparr>m_sMin := 1000 / 11, m_sMax := 110\<rparr>) \<and>
   \<not> raisesInvalidArgument (setGridLimits negativeVolatilityOption)"
proof -
  have e: "exp (- (18 / 25) :: real) < 1" by simp
  have p: "0 < exp (- (18 / 25) :: real)" by simp
  have "100 / 1 < 100 / exp (- (18 / 25) :: real)"
    using e p by (intro divide_strict_left_mono) simp_all
  then have c: "(1000 :: real) < 1100 / exp (- (18 / 25))" by simp
  have "setGridLimits negativeVolatilityOption =
      Inr (negativeVolatilityOption\<lparr>m_sMin := 1000 / 11, m_sMax := 110\<rparr>)"
    using c
    by (simp add: setGridLimits_def negativeVolatilityOption_def fdiv_def QL_SQRT_def
        QL_EXP_def Let_def)
  then show ?thesis
    by (simp add: raisesInvalidArgument_def) (simp add: negativeVolatilityOption_def)
qed

subsection \<open>Arrays and the two loops\<close>

declare initializeGrid_loop.simps [simp del]
declare payoff_loop.simps [simp del]

lemma getAt_inRange: "0 \<le> i \<Longrightarrow> i < int (length a) \<Longrightarrow> getAt a i = Inr (a ! nat i)"
  by (simp add: getAt_def inRange_def)

lemma setAt_inRange: "0 \<le> i \<Longrightarrow> i < int (length a) \<Longrightarrow> setAt a i v = Inr (a[nat i := v])"
  by (simp add: setAt_def inRange_def)

lemma initializeGrid_loop_result:
  assumes "0 < j" and "j \<le> n" and "int (length g) = n"
  shows "\<exists>g'. initializeGrid_loop edx n j g = Inr g' \<and> length g' = length g \<and>
           (\<forall>i. i < nat j \<longrightarrow> g' ! i = g ! i) \<and>
           (\<forall>i. nat j \<le> i \<and> i < length g \<longrightarrow> g' ! i = g' ! (i - 1) * edx)"
  using assms
proof (induction edx n j g rule: initializeGrid_loop.induct)
  case (1 edx n j g)
  show ?case
  proof (cases "j < n")
    case False
    then have "j = n" using "1.prems" by simp
    then show ?thesis using "1.prems" by (subst initializeGrid_loop.simps) auto
  next
    case True
    define v where "v = g ! nat (j - 1) * edx"
    define g1 where "g1 = g[nat j := v]"
    have get: "getAt g (j - 1) = Inr (g ! nat (j - 1))"
      using True "1.prems" by (intro getAt_inRange) simp_all
    have set: "setAt g j (g ! nat (j - 1) * edx) = Inr g1"
      unfolding g1_def v_def using True "1.prems" by (intro setAt_inRange) simp_all
    have len: "int (length g1) = n" using "1.prems" by (simp add: g1_def)
    have "\<exists>g'. initializeGrid_loop edx n (j + 1) g1 = Inr g' \<and> length g' = length g1 \<and>
           (\<forall>i. i < nat (j + 1) \<longrightarrow> g' ! i = g1 ! i) \<and>
           (\<forall>i. nat (j + 1) \<le> i \<and> i < length g1 \<longrightarrow> g' ! i = g' ! (i - 1) * edx)"
      using "1.prems" True len by (intro "1.IH" [OF True get set]) simp_all
    then obtain g' where run: "initializeGrid_loop edx n (j + 1) g1 = Inr g'"
      and l: "length g' = length g1"
      and low: "\<And>i. i < nat (j + 1) \<Longrightarrow> g' ! i = g1 ! i"
      and high: "\<And>i. nat (j + 1) \<le> i \<Longrightarrow> i < length g1 \<Longrightarrow> g' ! i = g' ! (i - 1) * edx"
      by blast
    have nj: "nat (j + 1) = Suc (nat j)" using "1.prems" by simp
    have jl: "nat j < length g" using True "1.prems" by simp
    have eq: "initializeGrid_loop edx n j g = Inr g'"
      using True get set run by (subst initializeGrid_loop.simps) simp
    have keep: "g' ! i = g ! i" if "i < nat j" for i
      using low [of i] that by (simp add: nj g1_def)
    have step: "g' ! i = g' ! (i - 1) * edx" if "nat j \<le> i" and "i < length g" for i
    proof (cases "i = nat j")
      case False
      then show ?thesis using that high [of i] by (simp add: nj g1_def)
    next
      case ij: True
      have "g' ! nat j = v" using low [of "nat j"] jl by (simp add: nj g1_def)
      moreover have "g' ! (nat j - 1) = g ! (nat j - 1)"
        using keep [of "nat j - 1"] "1.prems" by simp
      moreover have "nat (j - 1) = nat j - 1" by simp
      ultimately show ?thesis by (simp add: ij v_def)
    qed
    show ?thesis using eq l keep step by (auto simp: g1_def)
  qed
qed

lemma payoff_loop_result:
  assumes "0 \<le> j" and "j \<le> n" and "int (length grid) = n" and "int (length prices) = n"
  shows "\<exists>p. payoff_loop payoff n j grid prices = Inr p \<and> length p = length prices \<and>
           (\<forall>i. i < nat j \<longrightarrow> p ! i = prices ! i) \<and>
           (\<forall>i. nat j \<le> i \<and> i < length prices \<longrightarrow> p ! i = payoff (grid ! i))"
  using assms
proof (induction payoff n j grid prices rule: payoff_loop.induct)
  case (1 payoff n j grid prices)
  show ?case
  proof (cases "j < n")
    case False
    then have "j = n" using "1.prems" by simp
    then show ?thesis using "1.prems" by (subst payoff_loop.simps) auto
  next
    case True
    define p1 where "p1 = prices[nat j := payoff (grid ! nat j)]"
    have get: "getAt grid j = Inr (grid ! nat j)"
      using True "1.prems" by (intro getAt_inRange) simp_all
    have set: "setAt prices j (payoff (grid ! nat j)) = Inr p1"
      unfolding p1_def using True "1.prems" by (intro setAt_inRange) simp_all
    have "\<exists>p. payoff_loop payoff n (j + 1) grid p1 = Inr p \<and> length p = length p1 \<and>
           (\<forall>i. i < nat (j + 1) \<longrightarrow> p ! i = p1 ! i) \<and>
           (\<forall>i. nat (j + 1) \<le> i \<and> i < length p1 \<longrightarrow> p ! i = payoff (grid ! i))"
      using "1.prems" True by (intro "1.IH" [OF True get set]) (simp_all add: p1_def)
    then obtain p where run: "payoff_loop payoff n (j + 1) grid p1 = Inr p"
      and l: "length p = length p1"
      and low: "\<And>i. i < nat (j + 1) \<Longrightarrow> p ! i = p1 ! i"
      and high: "\<And>i. nat (j + 1) \<le> i \<Longrightarrow> i < length p1 \<Longrightarrow> p ! i = payoff (grid ! i)"
      by blast
    have nj: "nat (j + 1) = Suc (nat j)" using "1.prems" by simp
    have jl: "nat j < length prices" using True "1.prems" by simp
    have eq: "payoff_loop payoff n j grid prices = Inr p"
      using True get set run by (subst payoff_loop.simps) simp
    have keep: "p ! i = prices ! i" if "i < nat j" for i
      using low [of i] that by (simp add: nj p1_def)
    have step: "p ! i = payoff (grid ! i)" if "nat j \<le> i" and "i < length prices" for i
    proof (cases "i = nat j")
      case False
      then show ?thesis using that high [of i] by (simp add: nj p1_def)
    next
      case True
      then show ?thesis using low [of "nat j"] jl by (simp add: nj p1_def)
    qed
    show ?thesis using eq l keep step by (auto simp: p1_def)
  qed
qed

subsection \<open>\<open>initializeGrid\<close>\<close>

lemma geometric_from_steps:
  fixes g :: "real list"
  assumes "g ! 0 = a" and "\<And>i. 1 \<le> i \<Longrightarrow> i < length g \<Longrightarrow> g ! i = g ! (i - 1) * r"
  shows "i < length g \<Longrightarrow> g ! i = a * r ^ i"
proof (induction i)
  case 0
  then show ?case using assms(1) by simp
next
  case (Suc i)
  then have "g ! Suc i = g ! i * r" using assms(2) [of "Suc i"] by simp
  then show ?case using Suc by simp
qed

lemma initializeGrid_result:
  assumes lo: "0 < m_sMin s" and hi: "0 < m_sMax s" and n: "2 \<le> m_gridPoints s"
    and len: "int (length (m_grid s)) = m_gridPoints s"
  defines "L \<equiv> (ln (m_sMax s) - ln (m_sMin s)) / of_int (m_gridPoints s - 1)"
  shows "\<exists>g. initializeGrid s = Inr (s\<lparr>m_gridLogSpacing := L, m_grid := g\<rparr>) \<and>
           length g = length (m_grid s) \<and>
           (\<forall>i. i < length g \<longrightarrow> g ! i = m_sMin s * exp L ^ i)"
proof -
  define g0 where "g0 = (m_grid s)[0 := m_sMin s]"
  have set0: "setAt (m_grid s) 0 (m_sMin s) = Inr g0"
    unfolding g0_def using n len by (simp add: setAt_def inRange_def)
  have len0: "int (length g0) = m_gridPoints s" using len by (simp add: g0_def)
  obtain g where run: "initializeGrid_loop (exp L) (m_gridPoints s) 1 g0 = Inr g"
    and l: "length g = length g0"
    and low: "\<And>i. i < nat 1 \<Longrightarrow> g ! i = g0 ! i"
    and step: "\<And>i. nat 1 \<le> i \<Longrightarrow> i < length g0 \<Longrightarrow> g ! i = g ! (i - 1) * exp L"
    using initializeGrid_loop_result [of 1 "m_gridPoints s" g0 "exp L"] n len0 by auto
  have d: "real_of_int (m_gridPoints s - 1) \<noteq> 0" using n by simp
  have eq: "initializeGrid s = Inr (s\<lparr>m_gridLogSpacing := L, m_grid := g\<rparr>)"
    using lo hi d set0 run
    by (simp add: initializeGrid_def QL_LOG_def QL_EXP_def fdiv_def Let_def L_def)
  have pos: "0 < length (m_grid s)" using n len by linarith
  have "g ! 0 = m_sMin s" using low [of 0] pos by (simp add: g0_def)
  then have "g ! i = m_sMin s * exp L ^ i" if "i < length g" for i
    using that step l by (intro geometric_from_steps) simp_all
  then show ?thesis using eq l by (auto simp: g0_def)
qed

text \<open>
  Claim C4. For bounds \<open>0 < sMin < sMax\<close> and at least three grid points,
  \<open>initializeGrid\<close> returns with \<open>grid[0] = sMin\<close> and
  \<open>grid[j] = grid[j-1] * exp ((ln sMax - ln sMin) / (N - 1))\<close> for \<open>j = 1 .. N - 1\<close>:
  a strictly increasing geometric progression whose last point is \<open>sMax\<close>.
\<close>

theorem initializeGrid_geometric:
  assumes "0 < m_sMin s" and "m_sMin s < m_sMax s" and "3 \<le> m_gridPoints s"
    and "int (length (m_grid s)) = m_gridPoints s"
  shows "\<exists>s'. initializeGrid s = Inr s' \<and>
           m_gridLogSpacing s' =
             (ln (m_sMax s) - ln (m_sMin s)) / of_int (m_gridPoints s - 1) \<and>
           int (length (m_grid s')) = m_gridPoints s \<and>
           m_grid s' ! 0 = m_sMin s \<and>
           (\<forall>j. 1 \<le> j \<and> j < length (m_grid s') \<longrightarrow>
                m_grid s' ! j = m_grid s' ! (j - 1) * exp (m_gridLogSpacing s')) \<and>
           (\<forall>i j. i < j \<and> j < length (m_grid s') \<longrightarrow> m_grid s' ! i < m_grid s' ! j) \<and>
           m_grid s' ! (nat (m_gridPoints s) - 1) = m_sMax s"
proof -
  define L where "L = (ln (m_sMax s) - ln (m_sMin s)) / of_int (m_gridPoints s - 1)"
  define N where "N = nat (m_gridPoints s)"
  have hi: "0 < m_sMax s" using assms by linarith
  obtain g where eq: "initializeGrid s = Inr (s\<lparr>m_gridLogSpacing := L, m_grid := g\<rparr>)"
    and len: "length g = length (m_grid s)"
    and geo: "\<And>i. i < length g \<Longrightarrow> g ! i = m_sMin s * exp L ^ i"
    using initializeGrid_result [OF assms(1) hi _ assms(4)] assms(3) unfolding L_def by auto
  have lenN: "length g = N" using len assms(4) by (simp add: N_def)
  have N3: "3 \<le> N" using assms(3) by (simp add: N_def)
  have d: "0 < real_of_int (m_gridPoints s - 1)" using assms(3) by simp
  have "ln (m_sMin s) < ln (m_sMax s)" using assms by simp
  then have Lpos: "0 < L" unfolding L_def using d by simp
  then have r: "1 < exp L" by simp
  have step: "g ! j = g ! (j - 1) * exp L" if "1 \<le> j" and "j < length g" for j
  proof -
    have "exp L ^ j = exp L ^ (j - 1) * exp L" using that by (cases j) simp_all
    then show ?thesis using that geo [of j] geo [of "j - 1"] by simp
  qed
  have mono: "g ! i < g ! j" if "i < j" and "j < length g" for i j
  proof -
    have "exp L ^ i < exp L ^ j" using r that by (intro power_strict_increasing)
    then show ?thesis using that geo [of i] geo [of j] assms(1) by simp
  qed
  have "real (N - 1) = real_of_int (m_gridPoints s - 1)" using assms(3) by (simp add: N_def)
  then have "real (N - 1) * L = ln (m_sMax s) - ln (m_sMin s)" using d by (simp add: L_def)
  then have "exp L ^ (N - 1) = exp (ln (m_sMax s) - ln (m_sMin s))"
    by (simp add: exp_of_nat_mult [symmetric])
  also have "\<dots> = m_sMax s / m_sMin s" using assms(1) hi by (simp add: exp_diff)
  finally have "g ! (N - 1) = m_sMax s" using geo [of "N - 1"] lenN N3 assms(1) by simp
  moreover have "g ! 0 = m_sMin s" using geo [of 0] lenN N3 by simp
  ultimately show ?thesis using eq step mono lenN assms(3)
    by (auto simp: N_def L_def)
qed

theorem initializeGrid_geometric_witness:
  "0 < m_sMin gridExample \<and> m_sMin gridExample < m_sMax gridExample \<and>
   3 \<le> m_gridPoints gridExample \<and>
   int (length (m_grid gridExample)) = m_gridPoints gridExample \<and>
   (\<exists>s'. initializeGrid gridExample = Inr s' \<and>
      m_gridLogSpacing s' = (ln 200 - ln 50) / 4 \<and>
      length (m_grid s') = 5 \<and>
      m_grid s' ! 0 = 50 \<and>
      m_grid s' ! 1 = m_grid s' ! 0 * exp (m_gridLogSpacing s') \<and>
      m_grid s' ! 3 < m_grid s' ! 4 \<and>
      m_grid s' ! 4 = 200)"
proof -
  have h: "0 < m_sMin gridExample" "m_sMin gridExample < m_sMax gridExample"
    "3 \<le> m_gridPoints gridExample"
    "int (length (m_grid gridExample)) = m_gridPoints gridExample"
    by (simp_all add: gridExample_def)
  from initializeGrid_geometric [OF h] obtain s' where
    "initializeGrid gridExample = Inr s'"
    "m_gridLogSpacing s' = (ln (m_sMax gridExample) - ln (m_sMin gridExample))
        / of_int (m_gridPoints gridExample - 1)"
    "int (length (m_grid s')) = m_gridPoints gridExample"
    "m_grid s' ! 0 = m_sMin gridExample"
    "\<forall>j. 1 \<le> j \<and> j < length (m_grid s') \<longrightarrow>
        m_grid s' ! j = m_grid s' ! (j - 1) * exp (m_gridLogSpacing s')"
    "\<forall>i j. i < j \<and> j < length (m_grid s') \<longrightarrow> m_grid s' ! i < m_grid s' ! j"
    "m_grid s' ! (nat (m_gridPoints gridExample) - 1) = m_sMax gridExample"
    by blast
  note r = this
  have l5: "length (m_grid s') = 5" using r(3) by (simp add: gridExample_def)
  have "m_grid s' ! 1 = m_grid s' ! (1 - 1) * exp (m_gridLogSpacing s')"
    using r(5) l5 by (intro r(5) [rule_format]) simp
  moreover have "m_grid s' ! 3 < m_grid s' ! 4" using l5 by (intro r(6) [rule_format]) simp
  moreover have "m_grid s' ! 4 = 200" using r(7) by (simp add: gridExample_def)
  moreover have "m_gridLogSpacing s' = (ln 200 - ln 50) / 4"
    using r(2) by (simp add: gridExample_def)
  moreover have "m_grid s' ! 0 = 50" using r(4) by (simp add: gridExample_def)
  ultimately show ?thesis using h r(1) l5 by (intro conjI exI [of _ s']) simp_all
qed

subsection \<open>\<open>initializeInitialCondition\<close>\<close>

lemma QL_MAX_max: "QL_MAX a b = max a b"
  by (simp add: QL_MAX_def max_def)

lemma QL_FABS_abs: "QL_FABS x = \<bar>x\<bar>"
  by (simp add: QL_FABS_def abs_real_def)

lemma payoff_loop_all:
  assumes "sized s"
  shows "\<exists>p. payoff_loop payoff (m_gridPoints s) 0 (m_grid s) (m_initialPrices s) = Inr p \<and>
           length p = length (m_grid s) \<and>
           (\<forall>j. j < length (m_grid s) \<longrightarrow> p ! j = payoff (m_grid s ! j))"
proof -
  have n: "0 \<le> m_gridPoints s" using assms by (auto simp: sized_def)
  have "\<exists>p. payoff_loop payoff (m_gridPoints s) 0 (m_grid s) (m_initialPrices s) = Inr p \<and>
      length p = length (m_initialPrices s) \<and>
      (\<forall>i. i < nat 0 \<longrightarrow> p ! i = m_initialPrices s ! i) \<and>
      (\<forall>i. nat 0 \<le> i \<and> i < length (m_initialPrices s) \<longrightarrow> p ! i = payoff (m_grid s ! i))"
    using assms n by (intro payoff_loop_result) (simp_all add: sized_def)
  moreover have "length (m_initialPrices s) = length (m_grid s)"
    using assms by (simp add: sized_def)
  ultimately show ?thesis by auto
qed

lemma examples_sized [simp]:
  "sized exampleOption" "sized payoffExample" "sized putExample" "sized straddleExample"
  "sized operatorExample" "sized gridExample"
  by (simp_all add: sized_def payoffExample_def putExample_def straddleExample_def
      operatorExample_def gridExample_def)

text \<open>
  Claim C5. At every grid point \<open>j\<close>, \<open>initializeInitialCondition\<close> sets
  \<open>payoff[j]\<close> to \<open>max (grid[j] - strike) 0\<close> for a call, to
  \<open>max (strike - grid[j]) 0\<close> for a put and to \<open>|strike - grid[j]|\<close> for a straddle;
  for any other variant tag it raises InvalidArgument. In the three first cases both
  arrays have the \<open>gridPoints_\<close> slots the constructor gave them.
\<close>

theorem initializeInitialCondition_payoff:
  "(sized s \<and> m_type s = Call \<longrightarrow>
      (\<exists>s'. initializeInitialCondition s = Inr s' \<and> m_grid s' = m_grid s \<and>
         length (m_initialPrices s') = length (m_grid s) \<and>
         (\<forall>j. j < length (m_grid s) \<longrightarrow>
            m_initialPrices s' ! j = max (m_grid s ! j - m_strike s) 0))) \<and>
   (sized s \<and> m_type s = Put \<longrightarrow>
      (\<exists>s'. initializeInitialCondition s = Inr s' \<and> m_grid s' = m_grid s \<and>
         length (m_initialPrices s') = length (m_grid s) \<and>
         (\<forall>j. j < length (m_grid s) \<longrightarrow>
            m_initialPrices s' ! j = max (m_strike s - m_grid s ! j) 0))) \<and>
   (sized s \<and> m_type s = Straddle \<longrightarrow>
      (\<exists>s'. initializeInitialCondition s = Inr s' \<and> m_grid s' = m_grid s \<and>
         length (m_initialPrices s') = length (m_grid s) \<and>
         (\<forall>j. j < length (m_grid s) \<longrightarrow>
            m_initialPrices s' ! j = \<bar>m_strike s - m_grid s ! j\<bar>))) \<and>
   (\<forall>tag. m_type s = Unrecognized tag \<longrightarrow>
      raisesInvalidArgument (initializeInitialCondition s))"
proof (intro conjI impI allI)
  assume "sized s \<and> m_type s = Call"
  then show "\<exists>s'. initializeInitialCondition s = Inr s' \<and> m_grid s' = m_grid s \<and>
         length (m_initialPrices s') = length (m_grid s) \<and>
         (\<forall>j. j < length (m_grid s) \<longrightarrow>
            m_initialPrices s' ! j = max (m_grid s ! j - m_strike s) 0)"
    using payoff_loop_all [of s "\<lambda>x. QL_MAX (x - m_strike s) 0.0"]
    by (auto simp: initializeInitialCondition_def QL_MAX_max)
next
  assume "sized s \<and> m_type s = Put"
  then show "\<exists>s'. initializeInitialCondition s = Inr s' \<and> m_grid s' = m_grid s \<and>
         length (m_initialPrices s') = length (m_grid s) \<and>
         (\<forall>j. j < length (m_grid s) \<longrightarrow>
            m_initialPrices s' ! j = max (m_strike s - m_grid s ! j) 0)"
    using payoff_loop_all [of s "\<lambda>x. QL_MAX (m_strike s - x) 0.0"]
    by (auto simp: initializeInitialCondition_def QL_MAX_max)
next
  assume "sized s \<and> m_type s = Straddle"
  then show "\<exists>s'. initializeInitialCondition s = Inr s' \<and> m_grid s' = m_grid s \<and>
         length (m_initialPrices s') = length (m_grid s) \<and>
         (\<forall>j. j < length (m_grid s) \<longrightarrow>
            m_initialPrices s' ! j = \<bar>m_strike s - m_grid s ! j\<bar>)"
    using payoff_loop_all [of s "\<lambda>x. QL_FABS (m_strike s - x)"]
    by (auto simp: initializeInitialCondition_def QL_FABS_abs)
next
  fix tag
  assume "m_type s = Unrecognized tag"
  then show "raisesInvalidArgument (initializeInitialCondition s)"
    by (simp add: initializeInitialCondition_def QL_REQUIRE_def raisesInvalidArgument_def)
qed

theorem initializeInitialCondition_payoff_witness:
  "(sized payoffExample \<and> m_type payoffExample = Call) \<and>
   (\<exists>s'. initializeInitialCondition payoffExample = Inr s' \<and>
      m_initialPrices s' ! 1 = 0 \<and> m_initialPrices s' ! 3 = 50) \<and>
   (sized putExample \<and> m_type putExample = Put) \<and>
   (\<exists>s'. initializeInitialCondition putExample = Inr s' \<and>
      m_initialPrices s' ! 1 = 25 \<and> m_initialPrices s' ! 3 = 0) \<and>
   (sized straddleExample \<and> m_type straddleExample = Straddle) \<and>
   (\<exists>s'. initializeInitialCondition straddleExample = Inr s' \<and>
      m_initialPrices s' ! 1 = 25 \<and> m_initialPrices s' ! 3 = 50) \<and>
   m_type unrecognizedExample = Unrecognized 7 \<and>
   raisesInvalidArgument (initializeInitialCondition unrecognizedExample)"
proof -
  have c: "sized payoffExample \<and> m_type payoffExample = Call"
    and p: "sized putExample \<and> m_type putExample = Put"
    and s: "sized straddleExample \<and> m_type straddleExample = Straddle"
    and u: "m_type unrecognizedExample = Unrecognized 7"
    by (simp_all add: payoffExample_def putExample_def straddleExample_def
        unrecognizedExample_def sized_def)
  have g: "m_grid payoffExample = [50, 75, 100, 150, 200]"
    "m_grid putExample = [50, 75, 100, 150, 200]"
    "m_grid straddleExample = [50, 75, 100, 150, 200]"
    "m_strike payoffExample = 100" "m_strike putExample = 100"
    "m_strike straddleExample = 100"
    by (simp_all add: payoffExample_def putExample_def straddleExample_def)
  note t = initializeInitialCondition_payoff
  have "\<exists>s'. initializeInitialCondition payoffExample = Inr s' \<and>
      m_initialPrices s' ! 1 = 0 \<and> m_initialPrices s' ! 3 = 50"
    using t [of payoffExample] c by (auto simp: g)
  moreover have "\<exists>s'. initializeInitialCondition putExample = Inr s' \<and>
      m_initialPrices s' ! 1 = 25 \<and> m_initialPrices s' ! 3 = 0"
    using t [of putExample] p by (auto simp: g)
  moreover have "\<exists>s'. initializeInitialCondition straddleExample = Inr s' \<and>
      m_initialPrices s' ! 1 = 25 \<and> m_initialPrices s' ! 3 = 50"
    using t [of straddleExample] s by (auto simp: g)
  moreover have "raisesInvalidArgument (initializeInitialCondition unrecognizedExample)"
    using t [of unrecognizedExample] u by blast
  ultimately show ?thesis using c p s u by blast
qed

subsection \<open>\<open>initializeOperator\<close>\<close>

lemma initializeOperator_result:
  assumes n: "2 \<le> m_gridPoints s" and len: "int (length (m_initialPrices s)) = m_gridPoints s"
  shows "initializeOperator s =
     Inr (s\<lparr>m_finiteDifferenceOperator :=
       (newBSMOperator (m_gridPoints s) (m_gridLogSpacing s) (m_riskFreeRate s)
          (m_dividendYield s) (m_volatility s))
        \<lparr>lowerBC := BoundaryCondition Neumann (m_initialPrices s ! 1 - m_initialPrices s ! 0),
         higherBC := BoundaryCondition Neumann
           (m_initialPrices s ! nat (m_gridPoints s - 1)
             - m_initialPrices s ! nat (m_gridPoints s - 2))\<rparr>\<rparr>)"
proof -
  have "getAt (m_initialPrices s) 1 = Inr (m_initialPrices s ! nat 1)"
    "getAt (m_initialPrices s) 0 = Inr (m_initialPrices s ! nat 0)"
    "getAt (m_initialPrices s) (m_gridPoints s - 1)
       = Inr (m_initialPrices s ! nat (m_gridPoints s - 1))"
    "getAt (m_initialPrices s) (m_gridPoints s - 2)
       = Inr (m_initialPrices s ! nat (m_gridPoints s - 2))"
    using n len by (simp_all add: getAt_def inRange_def)
  then show ?thesis
    by (simp add: initializeOperator_def Let_def setLowerBC_def setHigherBC_def)
qed

text \<open>
  Claim C6. \<open>initializeOperator\<close> attaches a lower boundary condition of Neumann type
  with value \<open>payoff[1] - payoff[0]\<close> and a higher one of Neumann type with value
  \<open>payoff[N-1] - payoff[N-2]\<close>, whatever the variant; the payoff vector has the
  \<open>N \<ge> 2\<close> entries that the four subscripts need.
\<close>

theorem initializeOperator_boundary_conditions:
  assumes "2 \<le> m_gridPoints s" and "int (length (m_initialPrices s)) = m_gridPoints s"
  shows "\<exists>s'. initializeOperator s = Inr s' \<and>
           m_initialPrices s' = m_initialPrices s \<and>
           lowerBC (m_finiteDifferenceOperator s') =
             BoundaryCondition Neumann (m_initialPrices s ! 1 - m_initialPrices s ! 0) \<and>
           higherBC (m_finiteDifferenceOperator s') =
             BoundaryCondition Neumann
               (m_initialPrices s ! (nat (m_gridPoints s) - 1)
                 - m_initialPrices s ! (nat (m_gridPoints s) - 2))"
proof -
  have "nat (m_gridPoints s - 1) = nat (m_gridPoints s) - 1"
    "nat (m_gridPoints s - 2) = nat (m_gridPoints s) - 2"
    by simp_all
  then show ?thesis using initializeOperator_result [OF assms] by simp
qed

theorem initializeOperator_boundary_conditions_witness:
  "2 \<le> m_gridPoints operatorExample \<and>
   int (length (m_initialPrices operatorExample)) = m_gridPoints operatorExample \<and>
   (\<exists>s'. initializeOperator operatorExample = Inr s' \<and>
      lowerBC (m_finiteDifferenceOperator s') = BoundaryCondition Neumann 0 \<and>
      higherBC (m_finiteDifferenceOperator s') = BoundaryCondition Neumann 50)"
proof -
  have h: "2 \<le> m_gridPoints operatorExample"
    "int (length (m_initialPrices operatorExample)) = m_gridPoints operatorExample"
    by (simp_all add: operatorExample_def payoffExample_def)
  have p: "m_initialPrices operatorExample = [0, 0, 0, 50, 100]"
    "m_gridPoints operatorExample = 5"
    by (simp_all add: operatorExample_def payoffExample_def)
  show ?thesis
    using initializeOperator_boundary_conditions [OF h] h by (auto simp: p)
qed

subsection \<open>The subscripts and the divisor of the three initialisers\<close>

lemma initializeGrid_faults:
  assumes "sized s" and "2 \<le> m_gridPoints s"
  shows "initializeGrid s = Inl DomainError \<or>
         (\<exists>s'. initializeGrid s = Inr s' \<and> sized s' \<and> m_gridPoints s' = m_gridPoints s \<and>
            m_type s' = m_type s)"
proof (cases "0 < m_sMin s \<and> 0 < m_sMax s")
  case True
  then obtain g where "initializeGrid s = Inr (s\<lparr>m_gridLogSpacing :=
       (ln (m_sMax s) - ln (m_sMin s)) / of_int (m_gridPoints s - 1), m_grid := g\<rparr>)"
    and "length g = length (m_grid s)"
    using initializeGrid_result [of s] assms by (auto simp: sized_def)
  then show ?thesis using assms by (simp add: sized_def)
next
  case False
  then have "initializeGrid s = Inl DomainError"
    by (auto simp: initializeGrid_def QL_LOG_def)
  then show ?thesis by simp
qed

lemma store_payoff_sized:
  assumes "sized s"
  shows "\<exists>s'. bindE (payoff_loop payoff (m_gridPoints s) 0 (m_grid s) (m_initialPrices s))
                 (\<lambda>p. Inr (s\<lparr>m_initialPrices := p\<rparr>)) = Inr s' \<and>
           sized s' \<and> m_gridPoints s' = m_gridPoints s"
proof -
  obtain p where "payoff_loop payoff (m_gridPoints s) 0 (m_grid s) (m_initialPrices s) = Inr p"
    and "length p = length (m_grid s)"
    using payoff_loop_all [OF assms, of payoff] by blast
  then show ?thesis using assms by (simp add: sized_def)
qed

lemma initializeInitialCondition_sized:
  assumes "sized s" and "m_type s \<in> {Call, Put, Straddle}"
  shows "\<exists>s'. initializeInitialCondition s = Inr s' \<and> sized s' \<and>
           m_gridPoints s' = m_gridPoints s"
proof (cases "m_type s")
  case Call
  then show ?thesis
    using store_payoff_sized [OF assms(1), of "\<lambda>x. QL_MAX (x - m_strike s) 0.0"]
    by (simp add: initializeInitialCondition_def)
next
  case Put
  then show ?thesis
    using store_payoff_sized [OF assms(1), of "\<lambda>x. QL_MAX (m_strike s - x) 0.0"]
    by (simp add: initializeInitialCondition_def)
next
  case Straddle
  then show ?thesis
    using store_payoff_sized [OF assms(1), of "\<lambda>x. QL_FABS (m_strike s - x)"]
    by (simp add: initializeInitialCondition_def)
next
  case (Unrecognized tag)
  then show ?thesis using assms(2) by simp
qed

text \<open>
  Claim C10. In a session whose arrays have \<open>gridPoints_ \<ge> 3\<close> slots and whose variant is
  Call, Put or Straddle, no subscript of \<open>initializeGrid\<close>,
  \<open>initializeInitialCondition\<close> and \<open>initializeOperator\<close> is out of bounds and the
  divisor \<open>gridPoints_ - 1\<close> is not zero. Each of the three is safe on its own from any
  such session, and leaves the array sizes, the number of points and the variant as they
  were, so that the three are safe in sequence.
\<close>

theorem initializers_subscripts_in_bounds:
  assumes "sized s" and "3 \<le> m_gridPoints s" and "m_type s \<in> {Call, Put, Straddle}"
  shows "initializeGrid s \<noteq> Inl OutOfBounds \<and> initializeGrid s \<noteq> Inl DivisionByZero \<and>
         (\<forall>s'. initializeGrid s = Inr s' \<longrightarrow>
            sized s' \<and> m_gridPoints s' = m_gridPoints s \<and> m_type s' = m_type s) \<and>
         (0 < m_sMin s \<and> 0 < m_sMax s \<longrightarrow> (\<exists>s'. initializeGrid s = Inr s')) \<and>
         (\<exists>s'. initializeInitialCondition s = Inr s' \<and> sized s' \<and>
            m_gridPoints s' = m_gridPoints s) \<and>
         (\<exists>s'. initializeOperator s = Inr s' \<and> sized s' \<and>
            m_gridPoints s' = m_gridPoints s)"
proof -
  have n: "2 \<le> m_gridPoints s" using assms(2) by simp
  have g: "initializeGrid s = Inl DomainError \<or>
         (\<exists>s'. initializeGrid s = Inr s' \<and> sized s' \<and> m_gridPoints s' = m_gridPoints s \<and>
            m_type s' = m_type s)"
    using assms(1) n by (rule initializeGrid_faults)
  have r: "\<exists>s'. initializeGrid s = Inr s'" if "0 < m_sMin s \<and> 0 < m_sMax s"
    using initializeGrid_result [of s] that assms(1) n by (auto simp: sized_def)
  have o: "\<exists>s'. initializeOperator s = Inr s' \<and> sized s' \<and> m_gridPoints s' = m_gridPoints s"
    using initializeOperator_result [of s] assms(1) n by (simp add: sized_def)
  show ?thesis
    using g r o initializeInitialCondition_sized [OF assms(1,3)] by auto
qed

theorem initializers_subscripts_in_bounds_witness:
  "sized gridExample \<and> 3 \<le> m_gridPoints gridExample \<and>
   m_type gridExample = Call \<and>
   initializeGrid gridExample \<noteq> Inl OutOfBounds \<and>
   initializeGrid gridExample \<noteq> Inl DivisionByZero \<and>
   (\<exists>s'. initializeGrid gridExample = Inr s') \<and>
   (\<exists>s'. initializeInitialCondition gridExample = Inr s') \<and>
   (\<exists>s'. initializeOperator gridExample = Inr s')"
proof -
  have h: "sized gridExample" "3 \<le> m_gridPoints gridExample"
    "m_type gridExample \<in> {Call, Put, Straddle}"
    and b: "0 < m_sMin gridExample \<and> 0 < m_sMax gridExample"
    and c: "m_type gridExample = Call"
    by (simp_all add: gridExample_def sized_def)
  show ?thesis
    using initializers_subscripts_in_bounds [OF h] h(1,2) b c by blast
qed

subsection \<open>The constructor of \<open>MCForwardVanillaEngine\<close>\<close>

lemma QL_REQUIRE_True [simp]: "QL_REQUIRE True msg = Inr ()"
  by (simp add: QL_REQUIRE_def)

lemma QL_REQUIRE_False [simp]: "QL_REQUIRE False msg = Inl (InvalidArgument msg)"
  by (simp add: QL_REQUIRE_def)

lemma raisesInvalidArgument_simps [simp]:
  "raisesInvalidArgument (Inl (InvalidArgument msg))"
  "\<not> raisesInvalidArgument (Inr x)"
  by (simp_all add: raisesInvalidArgument_def)

lemma MCForwardVanillaEngine_new_cases:
  "MCForwardVanillaEngine_new null process timeSteps timeStepsPerYear brownianBridge
     antitheticVariate requiredSamples requiredTolerance maxSamples seed =
   (if timeSteps = null \<and> timeStepsPerYear = null
    then Inl (InvalidArgument ''no time steps provided'')
    else if timeSteps \<noteq> null \<and> timeStepsPerYear \<noteq> null
    then Inl (InvalidArgument ''both time steps and time steps per year were provided'')
    else if timeSteps = 0
    then Inl (InvalidArgument ''timeSteps must be positive, 0 not allowed'')
    else if timeStepsPerYear = 0
    then Inl (InvalidArgument ''timeStepsPerYear must be positive, 0 not allowed'')
    else Inr \<lparr>m_antitheticVariate = antitheticVariate, m_controlVariate = False,
              m_process = process, m_timeSteps = timeSteps,
              m_timeStepsPerYear = timeStepsPerYear,
              m_requiredSamples = requiredSamples, m_maxSamples = maxSamples,
              m_requiredTolerance = requiredTolerance,
              m_brownianBridge = brownianBridge, m_seed = seed\<rparr>)"
  by (simp add: MCForwardVanillaEngine_new_def Let_def)

text \<open>
  Claim C8. The constructor raises InvalidArgument exactly when the step configuration
  is ill-formed: neither of \<open>timeSteps\<close> and \<open>timeStepsPerYear\<close> is supplied, both
  are, or a supplied one is zero. With exactly one of them supplied, and positive, it
  returns the engine. The null value of \<open>Size\<close> is not zero.
\<close>

theorem MCForwardVanillaEngine_step_validation:
  assumes "null \<noteq> 0"
  shows "(raisesInvalidArgument
            (MCForwardVanillaEngine_new null process timeSteps timeStepsPerYear
               brownianBridge antitheticVariate requiredSamples requiredTolerance
               maxSamples seed) \<longleftrightarrow>
          (\<not> supplied null timeSteps \<and> \<not> supplied null timeStepsPerYear) \<or>
          (supplied null timeSteps \<and> supplied null timeStepsPerYear) \<or>
          (supplied null timeSteps \<and> timeSteps = 0) \<or>
          (supplied null timeStepsPerYear \<and> timeStepsPerYear = 0)) \<and>
         ((\<exists>engine.
            MCForwardVanillaEngine_new null process timeSteps timeStepsPerYear
              brownianBridge antitheticVariate requiredSamples requiredTolerance
              maxSamples seed = Inr engine \<and>
            m_timeSteps engine = timeSteps \<and>
            m_timeStepsPerYear engine = timeStepsPerYear) \<longleftrightarrow>
          (supplied null timeSteps \<and> \<not> supplied null timeStepsPerYear \<and> 0 < timeSteps) \<or>
          (\<not> supplied null timeSteps \<and> supplied null timeStepsPerYear \<and>
             0 < timeStepsPerYear))"
  unfolding MCForwardVanillaEngine_new_cases supplied_def using assms
  by (auto simp: word_greater_zero_iff)

theorem MCForwardVanillaEngine_step_validation_witness:
  "(2147483647 :: Size) \<noteq> 0 \<and>
   raisesInvalidArgument
     (MCForwardVanillaEngine_new 2147483647 () 10 12 False False 1000 0.01 100000 42) \<and>
   raisesInvalidArgument
     (MCForwardVanillaEngine_new 2147483647 () 2147483647 2147483647 False False 1000 0.01
        100000 42) \<and>
   raisesInvalidArgument
     (MCForwardVanillaEngine_new 2147483647 () 0 2147483647 False False 1000 0.01
        100000 42) \<and>
   (\<exists>engine.
      MCForwardVanillaEngine_new 2147483647 () 10 2147483647 False False 1000 0.01
        100000 42 = Inr engine \<and>
      m_timeSteps engine = 10 \<and> m_timeStepsPerYear engine = 2147483647)"
proof -
  have n: "(2147483647 :: Size) \<noteq> 0" by simp
  note t = MCForwardVanillaEngine_step_validation [OF n, of "()" _ _ False False 1000 "0.01"
      100000 42]
  show ?thesis
    using n t [of 10 12] t [of 2147483647 2147483647] t [of 0 2147483647]
      t [of 10 2147483647]
    by (simp add: supplied_def)
qed

subsection \<open>The cached results\<close>

lemma calculate_outcome:
  "calculate solve t = (r, t') \<Longrightarrow>
     pipelineRuns t' = Suc (pipelineRuns t) \<and>
     (case r of Inl e \<Rightarrow> obj t' = obj t | Inr u \<Rightarrow> m_hasBeenCalculated (obj t'))"
  by (auto simp: calculate_def Let_def split: sum.splits prod.splits)

lemma call_computed:
  "m_hasBeenCalculated (obj t) \<Longrightarrow> call solve a t = (Inr (cached a (obj t)), t)"
  by (cases a)
    (simp_all add: BSMNumericalOption_value_def BSMNumericalOption_delta_def
      BSMNumericalOption_gamma_def BSMNumericalOption_theta_def)

lemma call_uncomputed:
  "\<not> m_hasBeenCalculated (obj t) \<Longrightarrow>
     call solve a t =
       (case calculate solve t of
          (Inl e, t') \<Rightarrow> (Inl e, t')
        | (Inr u, t') \<Rightarrow> (Inr (cached a (obj t')), t'))"
  by (cases a)
    (simp_all add: BSMNumericalOption_value_def BSMNumericalOption_delta_def
      BSMNumericalOption_gamma_def BSMNumericalOption_theta_def
      split: prod.splits sum.splits)

lemma calls_computed:
  "m_hasBeenCalculated (obj t) \<Longrightarrow>
     calls solve as t = (map (\<lambda>b. Inr (cached b (obj t))) as, t)"
  by (induction as) (simp_all add: call_computed)

lemma setGridLimits_by_inputs:
  "\<exists>F. \<forall>s. 0 < m_underlying s \<and> 0 < m_strike s \<and> 0 < m_volatility s \<and> 0 < m_residualTime s
       \<longrightarrow> setGridLimits s =
           Inr (s\<lparr>m_sMin := fst (F (m_underlying s) (m_strike s) (m_volatility s)
                                  (m_residualTime s)),
                  m_sMax := snd (F (m_underlying s) (m_strike s) (m_volatility s)
                                  (m_residualTime s))\<rparr>)"
proof -
  define F where "F = (\<lambda>(S::real) (K::real) (sg::real) (T::real).
     (if (if S / exp (4 * (1 + 0.02 / (sg * sqrt T)) * (sg * sqrt T)) > K / 1.1
          then S / ((K / 1.1) / S)
          else S * exp (4 * (1 + 0.02 / (sg * sqrt T)) * (sg * sqrt T))) < K * 1.1
      then S / ((K * 1.1) / S)
      else (if S / exp (4 * (1 + 0.02 / (sg * sqrt T)) * (sg * sqrt T)) > K / 1.1
            then K / 1.1
            else S / exp (4 * (1 + 0.02 / (sg * sqrt T)) * (sg * sqrt T))),
      if (if S / exp (4 * (1 + 0.02 / (sg * sqrt T)) * (sg * sqrt T)) > K / 1.1
          then S / ((K / 1.1) / S)
          else S * exp (4 * (1 + 0.02 / (sg * sqrt T)) * (sg * sqrt T))) < K * 1.1
      then K * 1.1
      else (if S / exp (4 * (1 + 0.02 / (sg * sqrt T)) * (sg * sqrt T)) > K / 1.1
            then S / ((K / 1.1) / S)
            else S * exp (4 * (1 + 0.02 / (sg * sqrt T)) * (sg * sqrt T)))))"
  have "setGridLimits s =
           Inr (s\<lparr>m_sMin := fst (F (m_underlying s) (m_strike s) (m_volatility s)
                                  (m_residualTime s)),
                  m_sMax := snd (F (m_underlying s) (m_strike s) (m_volatility s)
                                  (m_residualTime s))\<rparr>)"
    if "0 < m_underlying s \<and> 0 < m_strike s \<and> 0 < m_volatility s \<and> 0 < m_residualTime s"
    for s
  proof -
    have h: "0 \<le> m_residualTime s" "m_volatility s * sqrt (m_residualTime s) \<noteq> 0"
      "m_underlying s \<noteq> 0" "m_strike s \<noteq> 0"
      using that by simp_all
    show ?thesis
      unfolding F_def fst_conv snd_conv by (rule setGridLimits_eq [OF h])
  qed
  then show ?thesis by blast
qed

lemma setGridLimits_frame:
  assumes i: "m_underlying z = m_underlying x" "m_strike z = m_strike x"
    "m_volatility z = m_volatility x" "m_residualTime z = m_residualTime x"
    and p: "0 < m_underlying x" "0 < m_strike x" "0 < m_volatility x" "0 < m_residualTime x"
    and r: "setGridLimits x = Inr x1"
  shows "setGridLimits z = Inr (z\<lparr>m_sMin := m_sMin x1, m_sMax := m_sMax x1\<rparr>)"
proof -
  obtain F where F: "\<And>s. 0 < m_underlying s \<and> 0 < m_strike s \<and> 0 < m_volatility s \<and>
       0 < m_residualTime s \<Longrightarrow> setGridLimits s =
           Inr (s\<lparr>m_sMin := fst (F (m_underlying s) (m_strike s) (m_volatility s)
                                  (m_residualTime s)),
                  m_sMax := snd (F (m_underlying s) (m_strike s) (m_volatility s)
                                  (m_residualTime s))\<rparr>)"
    using setGridLimits_by_inputs by blast
  have "x1 = x\<lparr>m_sMin := fst (F (m_underlying x) (m_strike x) (m_volatility x)
                                  (m_residualTime x)),
                  m_sMax := snd (F (m_underlying x) (m_strike x) (m_volatility x)
                                  (m_residualTime x))\<rparr>"
    using F [of x] p r by simp
  then show ?thesis using F [of z] p i by simp
qed

lemma initializeGrid_frame:
  assumes i: "sized z" "m_gridPoints z = m_gridPoints x" "m_sMin z = m_sMin x"
    "m_sMax z = m_sMax x"
    and p: "sized x" "2 \<le> m_gridPoints x" "0 < m_sMin x" "0 < m_sMax x"
    and r: "initializeGrid x = Inr x2"
  shows "initializeGrid z =
     Inr (z\<lparr>m_gridLogSpacing := m_gridLogSpacing x2, m_grid := m_grid x2\<rparr>)"
proof -
  define L where "L = (ln (m_sMax x) - ln (m_sMin x)) / of_int (m_gridPoints x - 1)"
  have lx: "int (length (m_grid x)) = m_gridPoints x"
    and lz: "int (length (m_grid z)) = m_gridPoints z"
    using i(1) p(1) by (simp_all add: sized_def)
  obtain gx where ex: "initializeGrid x = Inr (x\<lparr>m_gridLogSpacing := L, m_grid := gx\<rparr>)"
    and nx: "length gx = length (m_grid x)"
    and cx: "\<And>j. j < length gx \<Longrightarrow> gx ! j = m_sMin x * exp L ^ j"
    using initializeGrid_result [OF p(3,4,2) lx] unfolding L_def by blast
  obtain gz where ez: "initializeGrid z = Inr (z\<lparr>m_gridLogSpacing := L, m_grid := gz\<rparr>)"
    and nz: "length gz = length (m_grid z)"
    and cz: "\<And>j. j < length gz \<Longrightarrow> gz ! j = m_sMin x * exp L ^ j"
    using initializeGrid_result [of z] p(2,3,4) lz i(2,3,4) unfolding L_def by auto
  have "length gx = length gz" using nx nz lx lz i(2) by simp
  then have "gz = gx" using cx cz by (intro nth_equalityI) simp_all
  moreover have "x2 = x\<lparr>m_gridLogSpacing := L, m_grid := gx\<rparr>" using ex r by simp
  ultimately show ?thesis using ez by simp
qed

lemma payoff_loop_frame:
  assumes "sized z" and "sized x" and "m_gridPoints z = m_gridPoints x"
    and "m_grid z = m_grid x"
  shows "payoff_loop payoff (m_gridPoints z) 0 (m_grid z) (m_initialPrices z) =
         payoff_loop payoff (m_gridPoints x) 0 (m_grid x) (m_initialPrices x)"
proof -
  obtain px where ex: "payoff_loop payoff (m_gridPoints x) 0 (m_grid x) (m_initialPrices x)
        = Inr px"
    and nx: "length px = length (m_grid x)"
    and cx: "\<And>j. j < length (m_grid x) \<Longrightarrow> px ! j = payoff (m_grid x ! j)"
    using payoff_loop_all [OF assms(2), of payoff] by blast
  obtain pz where ez: "payoff_loop payoff (m_gridPoints z) 0 (m_grid z) (m_initialPrices z)
        = Inr pz"
    and nz: "length pz = length (m_grid z)"
    and cz: "\<And>j. j < length (m_grid z) \<Longrightarrow> pz ! j = payoff (m_grid z ! j)"
    using payoff_loop_all [OF assms(1), of payoff] by blast
  have "pz = px" using nx nz cx cz assms(4) by (intro nth_equalityI) simp_all
  then show ?thesis using ex ez by simp
qed

lemma initializeInitialCondition_form:
  assumes "sized s" and "m_type s \<in> {Call, Put, Straddle}"
  shows "\<exists>p. initializeInitialCondition s = Inr (s\<lparr>m_initialPrices := p\<rparr>) \<and>
           length p = length (m_grid s)"
proof -
  have "\<exists>p. bindE (payoff_loop payoff (m_gridPoints s) 0 (m_grid s) (m_initialPrices s))
                 (\<lambda>p. Inr (s\<lparr>m_initialPrices := p\<rparr>)) = Inr (s\<lparr>m_initialPrices := p\<rparr>) \<and>
           length p = length (m_grid s)" for payoff
    using payoff_loop_all [OF assms(1), of payoff] by auto
  then show ?thesis using assms(2)
    by (cases "m_type s") (simp_all add: initializeInitialCondition_def)
qed

lemma initializeInitialCondition_frame:
  assumes i: "sized z" "m_gridPoints z = m_gridPoints x" "m_type z = m_type x"
    "m_strike z = m_strike x" "m_grid z = m_grid x"
    and p: "sized x" "m_type x \<in> {Call, Put, Straddle}"
    and r: "initializeInitialCondition x = Inr x3"
  shows "initializeInitialCondition z = Inr (z\<lparr>m_initialPrices := m_initialPrices x3\<rparr>)"
proof -
  have key: "initializeInitialCondition z = Inr (z\<lparr>m_initialPrices := m_initialPrices x3\<rparr>)"
    if ex: "initializeInitialCondition x =
        bindE (payoff_loop payoff (m_gridPoints x) 0 (m_grid x) (m_initialPrices x))
          (\<lambda>p. Inr (x\<lparr>m_initialPrices := p\<rparr>))"
      and ez: "initializeInitialCondition z =
        bindE (payoff_loop payoff (m_gridPoints z) 0 (m_grid z) (m_initialPrices z))
          (\<lambda>p. Inr (z\<lparr>m_initialPrices := p\<rparr>))"
    for payoff
  proof -
    obtain px where px: "payoff_loop payoff (m_gridPoints x) 0 (m_grid x) (m_initialPrices x)
        = Inr px"
      using payoff_loop_all [OF p(1), of payoff] by blast
    have "x3 = x\<lparr>m_initialPrices := px\<rparr>" using ex px r by simp
    then have "m_initialPrices x3 = px" by simp
    moreover have "payoff_loop payoff (m_gridPoints z) 0 (m_grid z) (m_initialPrices z)
        = Inr px"
      using payoff_loop_frame [OF i(1) p(1) i(2) i(5), of payoff] px by simp
    ultimately show ?thesis using ez by simp
  qed
  show ?thesis
  proof (cases "m_type x")
    case Call
    then show ?thesis using i(3,4)
      by (intro key [of "\<lambda>v. QL_MAX (v - m_strike x) 0.0"])
        (simp_all add: initializeInitialCondition_def)
  next
    case Put
    then show ?thesis using i(3,4)
      by (intro key [of "\<lambda>v. QL_MAX (m_strike x - v) 0.0"])
        (simp_all add: initializeInitialCondition_def)
  next
    case Straddle
    then show ?thesis using i(3,4)
      by (intro key [of "\<lambda>v. QL_FABS (m_strike x - v)"])
        (simp_all add: initializeInitialCondition_def)
  next
    case (Unrecognized tag)
    then show ?thesis using p(2) by simp
  qed
qed

lemma initializeOperator_frame:
  assumes i: "m_gridPoints z = m_gridPoints x" "m_gridLogSpacing z = m_gridLogSpacing x"
    "m_riskFreeRate z = m_riskFreeRate x" "m_dividendYield z = m_dividendYield x"
    "m_volatility z = m_volatility x" "m_initialPrices z = m_initialPrices x"
    and p: "2 \<le> m_gridPoints x" "int (length (m_initialPrices x)) = m_gridPoints x"
    and r: "initializeOperator x = Inr y"
  shows "initializeOperator z =
     Inr (z\<lparr>m_finiteDifferenceOperator := m_finiteDifferenceOperator y\<rparr>)"
proof -
  have pz: "2 \<le> m_gridPoints z" "int (length (m_initialPrices z)) = m_gridPoints z"
    using p i by simp_all
  show ?thesis
    using initializeOperator_result [OF p] initializeOperator_result [OF pz] r i by simp
qed

lemma initializeInitialCondition_recognized:
  "initializeInitialCondition s = Inr s' \<Longrightarrow> m_type s \<in> {Call, Put, Straddle}"
  by (cases "m_type s") (simp_all add: initializeInitialCondition_def)

lemma initializeOperator_needs_two:
  "initializeOperator s = Inr s' \<Longrightarrow> 2 \<le> int (length (m_initialPrices s))"
  by (auto simp: initializeOperator_def Let_def getAt_def inRange_def bindE_def
      split: if_splits)

lemma pipeline_rerun:
  assumes S: "0 < m_underlying x" and K: "0 < m_strike x"
    and v: "0 < m_volatility x" and T: "0 < m_residualTime x" and sz: "sized x"
    and run: "bindE (setGridLimits x) (\<lambda>a.
               bindE (initializeGrid a) (\<lambda>b.
               bindE (initializeInitialCondition b) initializeOperator)) = Inr y"
    and z: "z = y\<lparr>m_value := va, m_delta := de, m_gamma := ga, m_theta := th,
                   m_hasBeenCalculated := True\<rparr>"
  shows "bindE (setGridLimits z) (\<lambda>a.
           bindE (initializeGrid a) (\<lambda>b.
           bindE (initializeInitialCondition b) initializeOperator)) = Inr z"
proof -
  obtain lo hi where e1: "setGridLimits x = Inr (x\<lparr>m_sMin := lo, m_sMax := hi\<rparr>)"
    and b: "m_underlying x < hi" "lo * hi = m_underlying x * m_underlying x"
    using setGridLimits_positive [OF S K v T] by blast
  define x1 where "x1 = x\<lparr>m_sMin := lo, m_sMax := hi\<rparr>"
  have hi: "0 < hi" using b(1) S by linarith
  have "0 < lo * hi" using b(2) S by simp
  then have lo: "0 < lo" using hi by (simp add: zero_less_mult_iff)
  from run e1 obtain x2 x3 where e2: "initializeGrid x1 = Inr x2"
    and e3: "initializeInitialCondition x2 = Inr x3" and e4: "initializeOperator x3 = Inr y"
    by (auto simp: x1_def bindE_def split: sum.splits)
  have s1: "sized x1" using sz by (simp add: x1_def sized_def)
  have pos1: "0 < m_sMin x1" "0 < m_sMax x1" using lo hi by (simp_all add: x1_def)
  have "m_gridPoints x1 \<noteq> 1 \<and> 0 < length (m_grid x1)"
    using e2 by (auto simp: initializeGrid_def QL_LOG_def fdiv_def setAt_def inRange_def
        bindE_def Let_def split: if_splits sum.splits)
  then have "m_gridPoints x1 \<noteq> 1 \<and> 0 < int (length (m_grid x1))" by simp
  then have n1: "2 \<le> m_gridPoints x1" using s1 unfolding sized_def by linarith
  have l1: "int (length (m_grid x1)) = m_gridPoints x1" using s1 by (simp add: sized_def)
  obtain g where f2: "x2 = x1\<lparr>m_gridLogSpacing := m_gridLogSpacing x2, m_grid := g\<rparr>"
    and lg: "length g = length (m_grid x1)"
    using initializeGrid_result [OF pos1 n1 l1] e2 by auto
  have s2: "sized x2" using s1 lg by (subst f2) (simp add: sized_def)
  have ty: "m_type x2 \<in> {Call, Put, Straddle}"
    using e3 by (rule initializeInitialCondition_recognized)
  obtain p where f3: "x3 = x2\<lparr>m_initialPrices := p\<rparr>" and lp: "length p = length (m_grid x2)"
    using initializeInitialCondition_form [OF s2 ty] e3 by auto
  have s3: "sized x3" using s2 lp by (subst f3) (simp add: sized_def)
  have n2: "m_gridPoints x2 = m_gridPoints x1" by (subst f2) simp
  have n3: "m_gridPoints x3 = m_gridPoints x1" using n2 by (subst f3) simp
  have p3: "2 \<le> m_gridPoints x3" "int (length (m_initialPrices x3)) = m_gridPoints x3"
    using n1 n3 s3 by (simp_all add: sized_def)
  have f4: "y = x3\<lparr>m_finiteDifferenceOperator := m_finiteDifferenceOperator y\<rparr>"
    using initializeOperator_result [OF p3] e4 by auto
  have yx3: "m_sMin y = m_sMin x3" "m_sMax y = m_sMax x3" "m_gridLogSpacing y = m_gridLogSpacing x3"
    "m_grid y = m_grid x3" "m_initialPrices y = m_initialPrices x3"
    "m_gridPoints y = m_gridPoints x3" "m_type y = m_type x3" "m_strike y = m_strike x3"
    "m_underlying y = m_underlying x3" "m_volatility y = m_volatility x3"
    "m_residualTime y = m_residualTime x3" "m_riskFreeRate y = m_riskFreeRate x3"
    "m_dividendYield y = m_dividendYield x3"
    by (subst f4, simp)+
  have x32: "m_sMin x3 = m_sMin x2" "m_sMax x3 = m_sMax x2"
    "m_gridLogSpacing x3 = m_gridLogSpacing x2"
    "m_grid x3 = m_grid x2" "m_type x3 = m_type x2" "m_strike x3 = m_strike x2"
    "m_underlying x3 = m_underlying x2" "m_volatility x3 = m_volatility x2"
    "m_residualTime x3 = m_residualTime x2" "m_riskFreeRate x3 = m_riskFreeRate x2"
    "m_dividendYield x3 = m_dividendYield x2"
    by (subst f3, simp)+
  have x21: "m_sMin x2 = m_sMin x1" "m_sMax x2 = m_sMax x1"
    "m_type x2 = m_type x1" "m_strike x2 = m_strike x1"
    "m_underlying x2 = m_underlying x1" "m_volatility x2 = m_volatility x1"
    "m_residualTime x2 = m_residualTime x1" "m_riskFreeRate x2 = m_riskFreeRate x1"
    "m_dividendYield x2 = m_dividendYield x1"
    by (subst f2, simp)+
  have x10: "m_strike x1 = m_strike x" "m_underlying x1 = m_underlying x"
    "m_volatility x1 = m_volatility x" "m_residualTime x1 = m_residualTime x"
    by (simp_all add: x1_def)
  have zy: "m_sMin z = m_sMin y" "m_sMax z = m_sMax y" "m_gridLogSpacing z = m_gridLogSpacing y"
    "m_grid z = m_grid y" "m_initialPrices z = m_initialPrices y"
    "m_gridPoints z = m_gridPoints y" "m_type z = m_type y" "m_strike z = m_strike y"
    "m_underlying z = m_underlying y" "m_volatility z = m_volatility y"
    "m_residualTime z = m_residualTime y" "m_riskFreeRate z = m_riskFreeRate y"
    "m_dividendYield z = m_dividendYield y"
    "m_finiteDifferenceOperator z = m_finiteDifferenceOperator y"
    by (simp_all add: z)
  have sy: "sized y" using s3 by (simp add: sized_def yx3)
  have szz: "sized z" using sy by (simp add: sized_def zy)
  have "setGridLimits z = Inr (z\<lparr>m_sMin := m_sMin x1, m_sMax := m_sMax x1\<rparr>)"
    using e1 S K v T by (intro setGridLimits_frame [of z x]) (simp_all add: zy yx3 x32 x21 x10 x1_def)
  moreover have "z\<lparr>m_sMin := m_sMin x1, m_sMax := m_sMax x1\<rparr> = z"
    using zy(1,2) yx3(1,2) x32(1,2) x21(1,2) by simp
  ultimately have r1: "setGridLimits z = Inr z" by simp
  have "initializeGrid z = Inr (z\<lparr>m_gridLogSpacing := m_gridLogSpacing x2, m_grid := m_grid x2\<rparr>)"
    using szz s1 n1 pos1 e2
    by (intro initializeGrid_frame [of z x1]) (simp_all add: zy yx3 x32 x21 n3)
  moreover have "z\<lparr>m_gridLogSpacing := m_gridLogSpacing x2, m_grid := m_grid x2\<rparr> = z"
    using zy(3,4) yx3(3,4) x32(3,4) by simp
  ultimately have r2: "initializeGrid z = Inr z" by simp
  have "initializeInitialCondition z = Inr (z\<lparr>m_initialPrices := m_initialPrices x3\<rparr>)"
    using szz s2 ty e3
    by (intro initializeInitialCondition_frame [of z x2]) (simp_all add: zy yx3 x32 n3 n2)
  moreover have "z\<lparr>m_initialPrices := m_initialPrices x3\<rparr> = z"
    using zy(5) yx3(5) by simp
  ultimately have r3: "initializeInitialCondition z = Inr z" by simp
  have "initializeOperator z =
      Inr (z\<lparr>m_finiteDifferenceOperator := m_finiteDifferenceOperator y\<rparr>)"
    using p3 e4 by (intro initializeOperator_frame [of z x3]) (simp_all add: zy yx3)
  moreover have "z\<lparr>m_finiteDifferenceOperator := m_finiteDifferenceOperator y\<rparr> = z"
    using zy(14) by simp
  ultimately have r4: "initializeOperator z = Inr z" by simp
  show ?thesis by (simp add: r1 r2 r3 r4)
qed

lemma calculate_success:
  assumes "calculate solve t = (Inr u, t1)"
  shows "\<exists>y va de ga th.
           bindE (setGridLimits (obj t)) (\<lambda>a.
             bindE (initializeGrid a) (\<lambda>b.
             bindE (initializeInitialCondition b) initializeOperator)) = Inr y \<and>
           solve (m_grid y) (m_initialPrices y) (m_finiteDifferenceOperator y)
             (m_riskFreeRate y) = Inr (va, de, ga, th) \<and>
           t1 = t\<lparr>pipelineRuns := Suc (pipelineRuns t),
                  obj := y\<lparr>m_value := va, m_delta := de, m_gamma := ga, m_theta := th,
                           m_hasBeenCalculated := True\<rparr>\<rparr>"
  using assms by (auto simp: calculate_def Let_def split: sum.splits prod.splits)

lemma calculate_rerun:
  assumes "0 < m_underlying (obj t)" and "0 < m_strike (obj t)"
    and "0 < m_volatility (obj t)" and "0 < m_residualTime (obj t)" and "sized (obj t)"
    and "calculate solve t = (Inr u, t1)"
  shows "calculate solve t1 = (Inr (), t1\<lparr>pipelineRuns := Suc (pipelineRuns t1)\<rparr>)"
proof -
  obtain y va de ga th where
    run: "bindE (setGridLimits (obj t)) (\<lambda>a.
             bindE (initializeGrid a) (\<lambda>b.
             bindE (initializeInitialCondition b) initializeOperator)) = Inr y"
    and sol: "solve (m_grid y) (m_initialPrices y) (m_finiteDifferenceOperator y)
             (m_riskFreeRate y) = Inr (va, de, ga, th)"
    and t1: "t1 = t\<lparr>pipelineRuns := Suc (pipelineRuns t),
                  obj := y\<lparr>m_value := va, m_delta := de, m_gamma := ga, m_theta := th,
                           m_hasBeenCalculated := True\<rparr>\<rparr>"
    using calculate_success [OF assms(6)] by blast
  define z where "z = y\<lparr>m_value := va, m_delta := de, m_gamma := ga, m_theta := th,
                           m_hasBeenCalculated := True\<rparr>"
  have o: "obj t1 = z" by (simp add: t1 z_def)
  have again: "bindE (setGridLimits z) (\<lambda>a.
             bindE (initializeGrid a) (\<lambda>b.
             bindE (initializeInitialCondition b) initializeOperator)) = Inr z"
    using assms(1-5) run z_def by (rule pipeline_rerun)
  have sol': "solve (m_grid z) (m_initialPrices z) (m_finiteDifferenceOperator z)
             (m_riskFreeRate z) = Inr (va, de, ga, th)"
    using sol by (simp add: z_def)
  have same: "z\<lparr>m_value := va, m_delta := de, m_gamma := ga, m_theta := th,
                           m_hasBeenCalculated := True\<rparr> = z"
    by (simp add: z_def)
  have "calculate solve t1 =
      (Inr (), t1\<lparr>pipelineRuns := Suc (pipelineRuns t1), obj := z\<rparr>)"
    unfolding calculate_def Let_def o again using sol' same by simp
  moreover have "t1\<lparr>pipelineRuns := Suc (pipelineRuns t1), obj := z\<rparr>
      = t1\<lparr>pipelineRuns := Suc (pipelineRuns t1)\<rparr>"
    using o by simp
  ultimately show ?thesis by simp
qed

text \<open>
  Claim C7. On a session whose results are not yet computed, a call of any of the four
  accessors runs the pipeline. If that call succeeds, it returns the scalar now cached,
  and every later accessor call returns its cached scalar and leaves the session as it
  is: the pipeline has run exactly once. \<open>calculate\<close> is idempotent: called again on
  that session (positive spot, strike, volatility and residual time, arrays of
  \<open>gridPoints_\<close> slots), it runs the pipeline once more and leaves the option object as
  it is.
\<close>

theorem accessors_run_pipeline_once:
  assumes "\<not> m_hasBeenCalculated (obj t)"
  shows "pipelineRuns (snd (call solve a t)) = Suc (pipelineRuns t) \<and>
         (\<forall>r t1. call solve a t = (Inr r, t1) \<longrightarrow>
            m_hasBeenCalculated (obj t1) \<and> r = cached a (obj t1) \<and>
            (\<forall>as. calls solve as t1 = (map (\<lambda>b. Inr (cached b (obj t1))) as, t1) \<and>
               pipelineRuns (snd (calls solve as t1)) = Suc (pipelineRuns t)) \<and>
            (0 < m_underlying (obj t) \<and> 0 < m_strike (obj t) \<and> 0 < m_volatility (obj t) \<and>
             0 < m_residualTime (obj t) \<and> sized (obj t) \<longrightarrow>
               calculate solve t1 = (Inr (), t1\<lparr>pipelineRuns := Suc (pipelineRuns t1)\<rparr>)))"
proof -
  obtain r0 t0 where c: "calculate solve t = (r0, t0)" by (cases "calculate solve t")
  note o = calculate_outcome [OF c]
  have runs: "pipelineRuns (snd (call solve a t)) = Suc (pipelineRuns t)"
    using o c by (simp add: call_uncomputed [OF assms] split: sum.splits)
  have rest: "m_hasBeenCalculated (obj t1) \<and> r = cached a (obj t1) \<and>
      (\<forall>as. calls solve as t1 = (map (\<lambda>b. Inr (cached b (obj t1))) as, t1) \<and>
         pipelineRuns (snd (calls solve as t1)) = Suc (pipelineRuns t)) \<and>
      (0 < m_underlying (obj t) \<and> 0 < m_strike (obj t) \<and> 0 < m_volatility (obj t) \<and>
       0 < m_residualTime (obj t) \<and> sized (obj t) \<longrightarrow>
         calculate solve t1 = (Inr (), t1\<lparr>pipelineRuns := Suc (pipelineRuns t1)\<rparr>))"
    if "call solve a t = (Inr r, t1)" for r t1
  proof -
    have e: "r0 = Inr () \<and> t1 = t0 \<and> r = cached a (obj t0)"
      using that c by (auto simp: call_uncomputed [OF assms] split: sum.splits)
    then have "calculate solve t = (Inr (), t1)" using c by simp
    then have "calculate solve t1 = (Inr (), t1\<lparr>pipelineRuns := Suc (pipelineRuns t1)\<rparr>)"
      if "0 < m_underlying (obj t) \<and> 0 < m_strike (obj t) \<and> 0 < m_volatility (obj t) \<and>
       0 < m_residualTime (obj t) \<and> sized (obj t)"
      using that by (intro calculate_rerun [of t solve "()" t1]) simp_all
    then show ?thesis using o e by (simp add: calls_computed)
  qed
  show ?thesis using runs rest by blast
qed

lemma pipeline_succeeds:
  assumes S: "0 < m_underlying s" and K: "0 < m_strike s"
    and v: "0 < m_volatility s" and T: "0 < m_residualTime s"
    and sz: "sized s" and n: "2 \<le> m_gridPoints s"
    and ty: "m_type s \<in> {Call, Put, Straddle}"
  shows "\<exists>s'. bindE (setGridLimits s) (\<lambda>a.
               bindE (initializeGrid a) (\<lambda>b.
               bindE (initializeInitialCondition b) initializeOperator)) = Inr s'"
proof -
  obtain lo hi where s1: "setGridLimits s = Inr (s\<lparr>m_sMin := lo, m_sMax := hi\<rparr>)"
    and b: "m_underlying s < hi" "lo * hi = m_underlying s * m_underlying s"
    using setGridLimits_positive [OF S K v T] by blast
  define a where "a = s\<lparr>m_sMin := lo, m_sMax := hi\<rparr>"
  have hi: "0 < hi" using b(1) S by linarith
  have "0 < lo * hi" using b(2) S by simp
  then have lo: "0 < lo" using hi by (simp add: zero_less_mult_iff)
  have a: "sized a" "2 \<le> m_gridPoints a" "m_type a = m_type s" "0 < m_sMin a" "0 < m_sMax a"
    using sz n lo hi by (simp_all add: a_def sized_def)
  obtain b where s2: "initializeGrid a = Inr b" and b: "sized b"
    "m_gridPoints b = m_gridPoints a" "m_type b = m_type a"
    using initializeGrid_faults [OF a(1,2)] initializeGrid_result [of a] a
    by (auto simp: sized_def)
  obtain c where s3: "initializeInitialCondition b = Inr c" and c: "sized c"
    "m_gridPoints c = m_gridPoints b"
    using initializeInitialCondition_sized [of b] b a(3) ty by auto
  have "\<exists>s'. initializeOperator c = Inr s'"
    using initializeOperator_result [of c] c b(2) a(2) by (simp add: sized_def)
  then show ?thesis using s1 s2 s3 by (auto simp: a_def)
qed

theorem accessors_run_pipeline_once_witness:
  "\<not> m_hasBeenCalculated (obj exampleSession) \<and>
   pipelineRuns (snd (call exampleStepper Value exampleSession)) = 1 \<and>
   (\<exists>t1. call exampleStepper Value exampleSession = (Inr 1, t1) \<and>
      m_hasBeenCalculated (obj t1) \<and>
      calls exampleStepper [Delta, Value, Theta] t1 = ([Inr 2, Inr 1, Inr 4], t1) \<and>
      pipelineRuns (snd (calls exampleStepper [Delta, Value, Theta] t1)) = 1 \<and>
      calculate exampleStepper t1 = (Inr (), t1\<lparr>pipelineRuns := 2\<rparr>))"
proof -
  have h: "\<not> m_hasBeenCalculated (obj exampleSession)" by (simp add: exampleSession_def)
  have q: "0 < m_underlying (obj exampleSession) \<and> 0 < m_strike (obj exampleSession) \<and>
      0 < m_volatility (obj exampleSession) \<and> 0 < m_residualTime (obj exampleSession) \<and>
      sized (obj exampleSession)"
    by (simp add: exampleSession_def)
  obtain s' where p: "bindE (setGridLimits exampleOption) (\<lambda>a.
               bindE (initializeGrid a) (\<lambda>b.
               bindE (initializeInitialCondition b) initializeOperator)) = Inr s'"
    using pipeline_succeeds [of exampleOption] by auto
  define t1 where "t1 = \<lparr>obj = s'\<lparr>m_value := 1, m_delta := 2, m_gamma := 3, m_theta := 4,
      m_hasBeenCalculated := True\<rparr>, pipelineRuns = Suc 0\<rparr>"
  have c: "calculate exampleStepper exampleSession = (Inr (), t1)"
    using p by (simp add: calculate_def exampleSession_def exampleStepper_def t1_def)
  have v: "call exampleStepper Value exampleSession = (Inr 1, t1)"
    using c h by (simp add: BSMNumericalOption_value_def t1_def)
  note t = accessors_run_pipeline_once [OF h, of exampleStepper Value]
  have "calls exampleStepper [Delta, Value, Theta] t1
        = (map (\<lambda>b. Inr (cached b (obj t1))) [Delta, Value, Theta], t1) \<and>
      pipelineRuns (snd (calls exampleStepper [Delta, Value, Theta] t1))
        = Suc (pipelineRuns exampleSession)"
    using t v by blast
  moreover have "m_hasBeenCalculated (obj t1)" using t v by blast
  moreover have "pipelineRuns (snd (call exampleStepper Value exampleSession)) = 1"
    using t by (simp add: exampleSession_def)
  moreover have "calculate exampleStepper t1
      = (Inr (), t1\<lparr>pipelineRuns := Suc (pipelineRuns t1)\<rparr>)"
    using t v q by blast
  ultimately show ?thesis using h v
    by (intro conjI exI [of _ t1]) (simp_all add: t1_def exampleSession_def)
qed

end
